theory Spec2Isabelle
  imports Complex_Main
begin

section \<open>Scan-state polling in camayoc: \<open>wait_until_state\<close> and \<open>wait_for_scan\<close>\<close>

text \<open>
  The two waiters of the test suite are embedded as HOL functions:
  \<^item> \<open>wait_until_state(scan, timeout, state)\<close> of \<open>camayoc/tests/qcs/api/v1/utils.py\<close>,
    which polls a \<open>Scan\<close> object through \<open>scan.status()\<close>;
  \<^item> \<open>wait_for_scan(scan_job_id, status, timeout)\<close> of
    \<open>camayoc/tests/qcs/cli/test_scans.py\<close>, which polls through \<open>scan_job\<close>.

  Both talk to a remote system and sleep. Every such interaction is recorded as an
  event of a trace, in the order in which it happens, and the remote system is a
  function from the trace so far to its reply, so that a reply may depend on how many
  calls and how many sleeps came before. An exception is a value: a run returns
  \<open>Inl\<close> of the exception raised or \<open>Inr ()\<close> for the plain \<open>return\<close>, together
  with the trace of the whole run.
\<close>

subsection \<open>Values, exceptions and events\<close>

text \<open>
  A status is what the remote record holds under \<open>status\<close>: a string, or \<open>None\<close>
  when no status is available.
\<close>

datatype pyval = PyNone | PyStr string

text \<open>Python's truth value (\<open>not v\<close> is its negation) and \<open>str(v)\<close>, as \<open>format\<close> applies it.\<close>

fun truthy :: "pyval \<Rightarrow> bool" where
  "truthy PyNone = False"
| "truthy (PyStr s) = (s \<noteq> [])"

fun py_str :: "pyval \<Rightarrow> string" where
  "py_str PyNone = ''None''"
| "py_str (PyStr s) = s"

text \<open>
  The exceptions a run can end with. \<open>Raised e\<close> is an error \<open>e\<close> raised by the
  remote system itself (connection, decoding), of a type the waiters know nothing about.
\<close>

datatype 'e exn =
    WaitTimeError string
  | FailedScanException string
  | IndexError
  | KeyError string
  | UnboundLocalError string
  | Raised 'e

text \<open>The dictionary \<open>scan_job\<close> returns, as an association list.\<close>

type_synonym result = "(string \<times> pyval) list"

datatype 'e event =
    Status "'e + pyval"
  | Read "'e + string"
  | Results "'e + string"
  | ScanJob "'e + result"
  | Sleep int

type_synonym 'e trace = "'e event list"

type_synonym 'e run = "('e exn + unit) \<times> 'e trace"

text \<open>
  The \<open>Scan\<close> object handed to \<open>wait_until_state\<close>: \<open>scan._id\<close> as \<open>str\<close> renders
  it, \<open>scan.status()\<close>, and the two diagnostic texts
  \<open>pprint.pformat(scan.read().json())\<close> and \<open>pprint.pformat(scan.results().json())\<close>.
  Each call may raise.
\<close>

record 'e scan =
  scan_id :: string
  status :: "'e trace \<Rightarrow> 'e + pyval"
  read_json :: "'e trace \<Rightarrow> 'e + string"
  results_json :: "'e trace \<Rightarrow> 'e + string"

text \<open>
  What \<open>wait_for_scan\<close> uses of its module: \<open>scan_job({'id': scan_job_id})\<close>, which
  may raise, and the pure pretty-printer \<open>pformat\<close>.
\<close>

record 'e cli =
  scan_job :: "string \<Rightarrow> 'e trace \<Rightarrow> 'e + result"
  pformat :: "result \<Rightarrow> string"

text \<open>The number of invocations of the status source and of \<open>time.sleep\<close> in a trace.\<close>

fun is_poll :: "'e event \<Rightarrow> bool" where
  "is_poll (Status r) = True"
| "is_poll (ScanJob r) = True"
| "is_poll ev = False"

fun is_sleep :: "'e event \<Rightarrow> bool" where
  "is_sleep (Sleep d) = True"
| "is_sleep ev = False"

definition polls :: "'e trace \<Rightarrow> nat" where
  "polls t = length (filter is_poll t)"

definition sleeps :: "'e trace \<Rightarrow> nat" where
  "sleeps t = length (filter is_sleep t)"

text \<open>The seconds slept in a trace.\<close>

fun slept :: "'e trace \<Rightarrow> int" where
  "slept [] = 0"
| "slept (Sleep d # t) = d + slept t"
| "slept (ev # t) = slept t"

text \<open>The error a call of the remote system raised, if the event is such a call.\<close>

fun raised_by :: "'e event \<Rightarrow> 'e option" where
  "raised_by (Status (Inl e)) = Some e"
| "raised_by (Read (Inl e)) = Some e"
| "raised_by (Results (Inl e)) = Some e"
| "raised_by (ScanJob (Inl e)) = Some e"
| "raised_by ev = None"

subsection \<open>\<open>str.format\<close> with automatically numbered fields\<close>

text \<open>
  \<open>template.format(*args)\<close> for templates whose only braces are \<open>{}\<close> fields, which is
  all the waiters use: fields are filled from left to right, a field with no argument
  left raises \<open>IndexError\<close>, arguments left over are ignored.
\<close>

fun py_format :: "string \<Rightarrow> string list \<Rightarrow> 'e exn + string" where
  "py_format (c # d # cs) args =
     (if c = CHR ''{'' \<and> d = CHR ''}'' then
        (case args of
           [] \<Rightarrow> Inl IndexError
         | a # as \<Rightarrow> (case py_format cs as of Inl e \<Rightarrow> Inl e | Inr s \<Rightarrow> Inr (a @ s)))
      else (case py_format (d # cs) args of Inl e \<Rightarrow> Inl e | Inr s \<Rightarrow> Inr (c # s)))"
| "py_format cs args = Inr cs"

text \<open>The number of \<open>{}\<close> fields of a template.\<close>

fun fields :: "string \<Rightarrow> nat" where
  "fields (c # d # cs) =
     (if c = CHR ''{'' \<and> d = CHR ''}'' then Suc (fields cs) else fields (d # cs))"
| "fields cs = 0"

text \<open>
  \<open>raise E(template.format(...))\<close>: the arguments of \<open>E\<close> are evaluated first, so an
  exception of \<open>format\<close> is the one that is raised.
\<close>

definition raise_formatted :: "(string \<Rightarrow> 'e exn) \<Rightarrow> 'e exn + string \<Rightarrow> 'e exn" where
  "raise_formatted E msg = (case msg of Inl e \<Rightarrow> e | Inr m \<Rightarrow> E m)"

subsection \<open>\<open>wait_until_state\<close>\<close>

definition wus_timeout_template :: string where
  \<open>wus_timeout_template =
     ''You have called wait_until_state() on a scan with ID={} and\<newline>'' @
     ''the scan timed out while waiting to achieve the state="{}"\<newline>'' @
     ''When the scan timed out, it had the state="{}".\<newline>'' @
     ''The full details of the scan were \<newline>{}\<newline>'' @
     ''The "results" available from the scan were \<newline>{}\<newline>''\<close>

definition wus_failed_template :: string where
  \<open>wus_failed_template =
     ''You have called wait_until_state() on a scan with ID={} and\<newline>'' @
     ''the scan failed instead of acheiving state={}.\<newline>'' @
     ''When it failed, the details about the scan were \<newline>{}\<newline>'' @
     ''The "results" available from the scan were \<newline>{}\<newline>''\<close>

text \<open>
  The loop condition
  \<open>(not scan.status() or not scan.status() == state) and timeout > 0\<close>:
  the status is fetched once, a second time when the first value is truthy, and the
  timeout is looked at only when the left conjunct holds.
\<close>

definition wus_cond :: "'e scan \<Rightarrow> string \<Rightarrow> int \<Rightarrow> 'e trace \<Rightarrow> ('e exn + bool) \<times> 'e trace" where
  "wus_cond scan state timeout t =
     (case status scan t of
        Inl e \<Rightarrow> (Inl (Raised e), t @ [Status (Inl e)])
      | Inr v1 \<Rightarrow>
          (if \<not> truthy v1 then (Inr (timeout > 0), t @ [Status (Inr v1)])
           else
             (case status scan (t @ [Status (Inr v1)]) of
                Inl e \<Rightarrow> (Inl (Raised e), t @ [Status (Inr v1), Status (Inl e)])
              | Inr v2 \<Rightarrow>
                  (Inr (\<not> v2 = PyStr state \<and> timeout > 0),
                   t @ [Status (Inr v1), Status (Inr v2)]))))"

text \<open>
  The \<open>raise WaitTimeError(...)\<close> of lines 36 to 49: the arguments of \<open>format\<close> are
  evaluated from left to right, with a fresh \<open>scan.status()\<close>, then the two
  diagnostic texts.
\<close>

definition wus_timed_out :: "'e scan \<Rightarrow> string \<Rightarrow> 'e trace \<Rightarrow> 'e run" where
  "wus_timed_out scan state t =
     (case status scan t of
        Inl e \<Rightarrow> (Inl (Raised e), t @ [Status (Inl e)])
      | Inr v \<Rightarrow>
          (case read_json scan (t @ [Status (Inr v)]) of
             Inl e \<Rightarrow> (Inl (Raised e), t @ [Status (Inr v), Read (Inl e)])
           | Inr d \<Rightarrow>
               (case results_json scan (t @ [Status (Inr v), Read (Inr d)]) of
                  Inl e \<Rightarrow> (Inl (Raised e), t @ [Status (Inr v), Read (Inr d), Results (Inl e)])
                | Inr r \<Rightarrow>
                    (Inl (raise_formatted WaitTimeError
                            (py_format wus_timeout_template
                               [scan_id scan, state, py_str v, d, r])),
                     t @ [Status (Inr v), Read (Inr d), Results (Inr r)]))))"

text \<open>
  Lines 50 to 60: \<open>if state != 'failed' and scan.status() == 'failed': raise ...\<close>.
  The status is fetched only when \<open>state\<close> is not \<open>'failed'\<close>; \<open>format\<close> gets the two
  arguments \<open>scan._id\<close> and \<open>state\<close>. \<open>Inr ()\<close> is falling through to the next
  evaluation of the loop condition.
\<close>

definition wus_failed_check :: "'e scan \<Rightarrow> string \<Rightarrow> 'e trace \<Rightarrow> 'e run" where
  "wus_failed_check scan state t =
     (if state \<noteq> ''failed'' then
        (case status scan t of
           Inl e \<Rightarrow> (Inl (Raised e), t @ [Status (Inl e)])
         | Inr v \<Rightarrow>
             (if v = PyStr ''failed'' then
                (Inl (raise_formatted FailedScanException
                        (py_format wus_failed_template [scan_id scan, state])),
                 t @ [Status (Inr v)])
              else (Inr (), t @ [Status (Inr v)])))
      else (Inr (), t))"

function wait_until_state_loop :: "'e scan \<Rightarrow> int \<Rightarrow> string \<Rightarrow> 'e trace \<Rightarrow> 'e run" where
  "wait_until_state_loop scan timeout state t =
     (case wus_cond scan state timeout t of
        (Inl e, t1) \<Rightarrow> (Inl e, t1)
      | (Inr go, t1) \<Rightarrow>
          (if \<not> go then (Inr (), t1)
           else if timeout - 5 \<le> 0 then wus_timed_out scan state (t1 @ [Sleep 5])
           else
             (case wus_failed_check scan state (t1 @ [Sleep 5]) of
                (Inl e, t2) \<Rightarrow> (Inl e, t2)
              | (Inr u, t2) \<Rightarrow> wait_until_state_loop scan (timeout - 5) state t2)))"
  by pat_completeness auto
termination
  by (relation "measure (\<lambda>(scan, timeout, state, t). nat timeout)") auto

definition wait_until_state :: "'e scan \<Rightarrow> int \<Rightarrow> string \<Rightarrow> 'e run" where
  "wait_until_state scan timeout state = wait_until_state_loop scan timeout state []"

subsection \<open>\<open>wait_for_scan\<close>\<close>

definition wfs_failed_template :: string where
  \<open>wfs_failed_template =
     ''The scan with ID "{}" has failed unexpectedly.\<newline>\<newline>'' @
     ''The information about the scan is:\<newline>{}\<newline>''\<close>

definition wfs_timeout_template :: string where
  \<open>wfs_timeout_template =
     ''Timeout waiting for scan with ID "{}" to achieve the "{}" status.\<newline>\<newline>'' @
     ''The information about the scan is:\<newline>{}\<newline>''\<close>

text \<open>\<open>result[key]\<close>, which raises \<open>KeyError\<close> on a missing key.\<close>

definition getitem :: "result \<Rightarrow> string \<Rightarrow> 'e exn + pyval" where
  "getitem r k = (case map_of r k of None \<Rightarrow> Inl (KeyError k) | Some v \<Rightarrow> Inr v)"

text \<open>
  The body of the loop after the poll, lines 125 to 132, for the polled \<open>result\<close>:
  \<open>Inl\<close> an exception, \<open>Inr True\<close> the \<open>return\<close>, \<open>Inr False\<close> going on to the sleep.
  \<open>result['status']\<close> is not read by the first \<open>if\<close> when \<open>status\<close> is \<open>'failed'\<close>.
\<close>

definition wfs_checks :: "'e cli \<Rightarrow> string \<Rightarrow> string \<Rightarrow> result \<Rightarrow> 'e exn + bool" where
  "wfs_checks cli scan_job_id st r =
     (case (if st \<noteq> ''failed'' then
              (case getitem r ''status'' of
                 Inl e \<Rightarrow> Inl e
               | Inr v \<Rightarrow> Inr (v = PyStr ''failed''))
            else Inr False) of
        Inl e \<Rightarrow> Inl e
      | Inr True \<Rightarrow>
          Inl (raise_formatted FailedScanException
                 (py_format wfs_failed_template [scan_job_id, pformat cli r]))
      | Inr False \<Rightarrow>
          (case getitem r ''status'' of
             Inl e \<Rightarrow> Inl e
           | Inr v \<Rightarrow> Inr (v = PyStr st)))"

text \<open>
  The loop and the \<open>raise\<close> after it. The local variable \<open>result\<close> is \<open>None\<close> while
  it is unbound; reading it then raises \<open>UnboundLocalError\<close>.
\<close>

function wait_for_scan_loop ::
  "'e cli \<Rightarrow> string \<Rightarrow> string \<Rightarrow> int \<Rightarrow> result option \<Rightarrow> 'e trace \<Rightarrow> 'e run" where
  "wait_for_scan_loop cli scan_job_id st timeout result t =
     (if timeout > 0 then
        (case scan_job cli scan_job_id t of
           Inl e \<Rightarrow> (Inl (Raised e), t @ [ScanJob (Inl e)])
         | Inr r \<Rightarrow>
             (case wfs_checks cli scan_job_id st r of
                Inl e \<Rightarrow> (Inl e, t @ [ScanJob (Inr r)])
              | Inr done \<Rightarrow>
                  (if done then (Inr (), t @ [ScanJob (Inr r)])
                   else wait_for_scan_loop cli scan_job_id st (timeout - 5) (Some r)
                          (t @ [ScanJob (Inr r), Sleep 5]))))
      else
        (case result of
           None \<Rightarrow> (Inl (UnboundLocalError ''result''), t)
         | Some r \<Rightarrow>
             (Inl (raise_formatted WaitTimeError
                     (py_format wfs_timeout_template [scan_job_id, st, pformat cli r])),
              t)))"
  by pat_completeness auto
termination
  by (relation "measure (\<lambda>(cli, scan_job_id, st, timeout, result, t). nat timeout)") auto

definition wait_for_scan :: "'e cli \<Rightarrow> string \<Rightarrow> string \<Rightarrow> int \<Rightarrow> 'e run" where
  "wait_for_scan cli scan_job_id st timeout =
     wait_for_scan_loop cli scan_job_id st timeout None []"

subsection \<open>Concrete status sources\<close>

text \<open>
  Sources used to run the waiters on explicit inputs. \<open>seq xs d\<close> is the sequence
  that starts with \<open>xs\<close> and goes on with \<open>d\<close> for ever. A scan answers
  \<open>scan.status()\<close> either by the number of calls of the status source made before
  (\<open>scan_by_call\<close>) or by the number of sleeps elapsed (\<open>scan_by_time\<close>, a status
  that only changes while the waiter sleeps); \<open>cli_by_call\<close> answers \<open>scan_job\<close>
  by the number of calls made before.
\<close>

definition seq :: "'a list \<Rightarrow> 'a \<Rightarrow> nat \<Rightarrow> 'a" where
  "seq xs d n = (if n < length xs then xs ! n else d)"

definition scan_by_call :: "(nat \<Rightarrow> 'e + pyval) \<Rightarrow> 'e scan" where
  "scan_by_call f =
     \<lparr>scan_id = ''7'', status = (\<lambda>t. f (polls t)),
      read_json = (\<lambda>t. Inr ''details''), results_json = (\<lambda>t. Inr ''results'')\<rparr>"

definition scan_by_time :: "(nat \<Rightarrow> 'e + pyval) \<Rightarrow> 'e scan" where
  "scan_by_time f =
     \<lparr>scan_id = ''7'', status = (\<lambda>t. f (sleeps t)),
      read_json = (\<lambda>t. Inr ''details''), results_json = (\<lambda>t. Inr ''results'')\<rparr>"

definition show_status :: "result \<Rightarrow> string" where
  "show_status r = (case map_of r ''status'' of None \<Rightarrow> ''{}'' | Some v \<Rightarrow> py_str v)"

definition cli_by_call :: "(nat \<Rightarrow> 'e + result) \<Rightarrow> 'e cli" where
  "cli_by_call f = \<lparr>scan_job = (\<lambda>i t. f (polls t)), pformat = show_status\<rparr>"

definition job :: "string \<Rightarrow> result" where
  "job s = [(''id'', PyStr ''7''), (''status'', PyStr s)]"

subsection \<open>Invariants of a run\<close>

text \<open>
  What a run that starts after the trace \<open>t\<close> with the budget \<open>timeout\<close> keeps of
  the sleeping discipline: it sleeps at most \<open>(timeout + 4) div 5\<close> times, the
  rounded-up quotient of the budget by the interval, and exactly so often when it ends
  with \<open>WaitTimeError\<close>; each of its sleeps lasts 5 seconds.
\<close>

definition sleeps_ok :: "int \<Rightarrow> 'e trace \<Rightarrow> 'e run \<Rightarrow> bool" where
  "sleeps_ok timeout t run \<longleftrightarrow>
     sleeps (snd run) \<le> sleeps t + nat ((timeout + 4) div 5) \<and>
     slept (snd run) = slept t + 5 * (int (sleeps (snd run)) - int (sleeps t)) \<and>
     (\<forall>ev\<in>set (snd run). is_sleep ev \<longrightarrow> ev = Sleep 5 \<or> ev \<in> set t) \<and>
     ((\<exists>m. fst run = Inl (WaitTimeError m)) \<longrightarrow>
        sleeps (snd run) = sleeps t + nat ((timeout + 4) div 5))"

text \<open>
  A trace in which no call of the remote system raised, and what a run keeps of the
  errors of the remote system: its outcome is such an error exactly when the last
  event of its trace raised it, and no earlier event raised anything.
\<close>

definition clean :: "'e trace \<Rightarrow> bool" where
  "clean t \<longleftrightarrow> (\<forall>ev\<in>set t. raised_by ev = None)"


section \<open>Properties of the waiters\<close>

subsection \<open>Unfolding rules and the message templates\<close>

text \<open>
  The equations of the two loops are applied by hand: each unfolds into itself.
\<close>

declare wait_until_state_loop.simps [simp del]
declare wait_for_scan_loop.simps [simp del]

lemmas example_defs = seq_def scan_by_call_def scan_by_time_def show_status_def cli_by_call_def
  job_def polls_def sleeps_def

lemmas wus_defs = wait_until_state_def wait_until_state_loop.simps wus_cond_def wus_timed_out_def
  wus_failed_check_def raise_formatted_def

lemmas wfs_defs = wait_for_scan_def wait_for_scan_loop.simps wfs_checks_def getitem_def
  raise_formatted_def

lemma wus_timeout_format:
  \<open>py_format wus_timeout_template [a, b, c, d, r] =
     Inr (''You have called wait_until_state() on a scan with ID='' @ a @ '' and\<newline>'' @
     ''the scan timed out while waiting to achieve the state="'' @ b @ ''"\<newline>'' @
     ''When the scan timed out, it had the state="'' @ c @ ''".\<newline>'' @
     ''The full details of the scan were \<newline>'' @ d @ ''\<newline>'' @
     ''The "results" available from the scan were \<newline>'' @ r @ ''\<newline>'')\<close>
  by (simp add: wus_timeout_template_def)

lemma wus_failed_format: "py_format wus_failed_template [a, b] = Inl IndexError"
  by (simp add: wus_failed_template_def)

lemma wfs_timeout_format:
  \<open>py_format wfs_timeout_template [a, b, c] =
     Inr (''Timeout waiting for scan with ID "'' @ a @ ''" to achieve the "'' @ b @
          ''" status.\<newline>\<newline>The information about the scan is:\<newline>'' @ c @ ''\<newline>'')\<close>
  by (simp add: wfs_timeout_template_def)

lemma wfs_failed_format:
  \<open>py_format wfs_failed_template [a, b] =
     Inr (''The scan with ID "'' @ a @ ''" has failed unexpectedly.\<newline>\<newline>'' @
          ''The information about the scan is:\<newline>'' @ b @ ''\<newline>'')\<close>
  by (simp add: wfs_failed_template_def)

lemma fields_wus_failed: "fields wus_failed_template = 4"
  by (simp add: wus_failed_template_def)

subsection \<open>How each part of \<open>wait_until_state\<close> can end\<close>

lemma wus_cond_raises:
  "wus_cond scan state timeout t = (Inl x, t1) \<Longrightarrow> \<exists>e. x = Raised e"
  by (auto simp: wus_cond_def split: sum.splits if_splits)

lemma wus_cond_trace:
  "wus_cond scan state timeout t = (x, t1) \<Longrightarrow>
     (\<exists>r. t1 = t @ [Status r]) \<or> (\<exists>r r'. t1 = t @ [Status r, Status r'])"
  by (auto simp: wus_cond_def split: sum.splits if_splits)

lemma wus_cond_nonpositive:
  "timeout \<le> 0 \<Longrightarrow> wus_cond scan state timeout t = (x, t1) \<Longrightarrow>
     x = Inr False \<or> (\<exists>e. x = Inl (Raised e))"
  by (auto simp: wus_cond_def split: sum.splits if_splits)

lemma wus_timed_out_raises:
  "wus_timed_out scan state t = (x, t1) \<Longrightarrow>
     (\<exists>m. x = Inl (WaitTimeError m)) \<or> (\<exists>e. x = Inl (Raised e))"
  by (auto simp: wus_timed_out_def wus_timeout_format raise_formatted_def split: sum.splits)

lemma wus_failed_check_raises:
  "wus_failed_check scan state t = (Inl x, t1) \<Longrightarrow> x = IndexError \<or> (\<exists>e. x = Raised e)"
  by (auto simp: wus_failed_check_def wus_failed_format raise_formatted_def
      split: sum.splits if_splits)

text \<open>
  The four ways a run of the loop of \<open>wait_until_state\<close> ends: the return, the
  \<open>IndexError\<close> of the failed branch, \<open>WaitTimeError\<close>, or an error of the scan.
\<close>

lemma wus_loop_outcome:
  "fst (wait_until_state_loop scan timeout state t) = Inr () \<or>
   fst (wait_until_state_loop scan timeout state t) = Inl IndexError \<or>
   (\<exists>m. fst (wait_until_state_loop scan timeout state t) = Inl (WaitTimeError m)) \<or>
   (\<exists>e. fst (wait_until_state_loop scan timeout state t) = Inl (Raised e))"
proof (induction scan timeout state t rule: wait_until_state_loop.induct)
  case (1 scan timeout state t)
  obtain x t1 where c: "wus_cond scan state timeout t = (x, t1)"
    by (cases "wus_cond scan state timeout t")
  show ?case
  proof (cases x)
    case (Inl a)
    with c wus_cond_raises[of scan state timeout t a t1] show ?thesis
      by (subst wait_until_state_loop.simps) auto
  next
    case (Inr go)
    show ?thesis
    proof (cases "go \<and> \<not> timeout - 5 \<le> 0")
      case False
      then show ?thesis
        using c Inr wus_timed_out_raises[of scan state "t1 @ [Sleep 5]"]
        apply (subst (1 2 3 4) wait_until_state_loop.simps)
        apply (cases "wus_timed_out scan state (t1 @ [Sleep 5])")
        apply auto
        done
    next
      case True
      obtain y t2 where f: "wus_failed_check scan state (t1 @ [Sleep 5]) = (y, t2)"
        by (cases "wus_failed_check scan state (t1 @ [Sleep 5])")
      show ?thesis
      proof (cases y)
        case (Inl b)
        with True c Inr f wus_failed_check_raises[of scan state "t1 @ [Sleep 5]" b t2]
        show ?thesis
          by (subst (1 2 3 4) wait_until_state_loop.simps) auto
      next
        case (Inr u)
        from "1.IH"[of x t1 go y t2 u] c \<open>x = Inr go\<close> True f Inr
        show ?thesis
          by (subst (1 2 3 4) wait_until_state_loop.simps) auto
      qed
    qed
  qed
qed

subsection \<open>A timeout that is zero or negative\<close>

text \<open>
  Claim C9. When \<open>wait_for_scan\<close> is called with \<open>timeout <= 0\<close>, the body of the
  loop never runs (the trace of the run is empty: no poll, no sleep), and the
  \<open>raise\<close> after the loop reads the local variable \<open>result\<close>, which was never
  assigned: the call ends with the unbound-variable error, not with a
  \<open>WaitTimeError\<close> carrying the diagnostic message.
\<close>

theorem wait_for_scan_unbound_result:
  "timeout \<le> 0 \<Longrightarrow>
     wait_for_scan cli scan_job_id st timeout = (Inl (UnboundLocalError ''result''), [])"
  by (simp add: wait_for_scan_def wait_for_scan_loop.simps)

theorem wait_for_scan_unbound_result_witness:
  "(0::int) \<le> 0 \<and>
   wait_for_scan (cli_by_call (seq [] (Inr (job ''running'') :: string + result)))
       ''7'' ''completed'' 0 =
     (Inl (UnboundLocalError ''result''), [])"
  using wait_for_scan_unbound_result
    [of 0 "cli_by_call (seq [] (Inr (job ''running'') :: string + result))" "''7''"
        "''completed''"]
  by simp

text \<open>
  Claim C1, as stated: every call of a waiter with \<open>timeout <= 0\<close> raises
  \<open>WaitTimeError\<close> without invoking the status source, and never returns success.
  It fails for \<open>wait_until_state\<close>: with \<open>timeout = 0\<close> on a scan that is running,
  the loop condition fetches the status twice, finds \<open>timeout > 0\<close> false, and the
  function returns.
\<close>

theorem wait_nonpositive_counterexample:
  "wait_until_state (scan_by_call (seq [] (Inr (PyStr ''running'') :: string + pyval)))
       0 ''completed'' =
     (Inr (), [Status (Inr (PyStr ''running'')), Status (Inr (PyStr ''running''))])"
  by (simp add: wus_defs example_defs)

text \<open>
  Claim C1, amended. For every \<open>timeout <= 0\<close>: \<open>wait_for_scan\<close> makes no call of
  the status source and no sleep (its trace is empty) and does not return success;
  \<open>wait_until_state\<close> evaluates its loop condition once, which invokes the status
  source once or twice, never sleeps, and then returns success, unless the status
  source itself raised, in which case that error is the outcome. It raises neither
  \<open>WaitTimeError\<close> nor \<open>FailedScanException\<close>.
\<close>

theorem wait_nonpositive:
  assumes "timeout \<le> 0"
  shows "snd (wait_for_scan cli scan_job_id st timeout) = [] \<and>
         fst (wait_for_scan cli scan_job_id st timeout) \<noteq> Inr () \<and>
         sleeps (snd (wait_until_state scan timeout state)) = 0 \<and>
         1 \<le> polls (snd (wait_until_state scan timeout state)) \<and>
         polls (snd (wait_until_state scan timeout state)) \<le> 2 \<and>
         (fst (wait_until_state scan timeout state) = Inr () \<or>
          (\<exists>e. fst (wait_until_state scan timeout state) = Inl (Raised e)))"
proof -
  have wfs: "wait_for_scan cli scan_job_id st timeout = (Inl (UnboundLocalError ''result''), [])"
    using assms by (simp add: wait_for_scan_def wait_for_scan_loop.simps)
  obtain x t1 where c: "wus_cond scan state timeout [] = (x, t1)"
    by (cases "wus_cond scan state timeout []")
  from wus_cond_nonpositive[OF assms c] have run:
    "wait_until_state scan timeout state = (Inr (), t1) \<or>
     (\<exists>e. wait_until_state scan timeout state = (Inl (Raised e), t1))"
    using c by (auto simp: wait_until_state_def wait_until_state_loop.simps)
  from wus_cond_trace[OF c] have tr: "sleeps t1 = 0 \<and> 1 \<le> polls t1 \<and> polls t1 \<le> 2"
    by (auto simp: sleeps_def polls_def)
  from wfs run tr show ?thesis by auto
qed

theorem wait_nonpositive_witness:
  "(0::int) \<le> 0 \<and>
   snd (wait_for_scan (cli_by_call (seq [] (Inr (job ''running'') :: string + result)))
          ''7'' ''completed'' 0) = [] \<and>
   fst (wait_until_state (scan_by_call (seq [] (Inr (PyStr ''running'') :: string + pyval)))
          0 ''completed'') = Inr ()"
  using wait_nonpositive
    [of 0 "cli_by_call (seq [] (Inr (job ''running'') :: string + result))" "''7''"
        "''completed''" "scan_by_call (seq [] (Inr (PyStr ''running'') :: string + pyval))"
        "''completed''"]
  by (simp add: wus_defs example_defs)

subsection \<open>The failed branch of \<open>wait_until_state\<close>\<close>

text \<open>
  Claim C10. In \<open>wait_until_state\<close> the template of the \<open>FailedScanException\<close>
  message has four \<open>{}\<close> fields and \<open>format\<close> is given the two arguments
  \<open>scan._id\<close> and \<open>state\<close>, so the formatting raises \<open>IndexError\<close>: whenever the
  failed branch is taken (\<open>state\<close> is not \<open>'failed'\<close> and the status fetched is
  \<open>'failed'\<close>), the check of lines 50 to 60 ends with \<open>IndexError\<close>, and no run of
  \<open>wait_until_state\<close> ends with \<open>FailedScanException\<close>.
\<close>

theorem wus_failed_branch_index_error:
  "fields wus_failed_template = 4 \<and>
   (py_format wus_failed_template [scan_id scan, state] :: 'e exn + string) = Inl IndexError \<and>
   (state \<noteq> ''failed'' \<longrightarrow> status scan t = Inr (PyStr ''failed'') \<longrightarrow>
      wus_failed_check scan state t = (Inl IndexError, t @ [Status (Inr (PyStr ''failed''))])) \<and>
   (\<forall>m. fst (wait_until_state (scan :: 'e scan) timeout state) \<noteq> Inl (FailedScanException m))"
proof -
  have a: "fields wus_failed_template = 4" by (rule fields_wus_failed)
  have b: "(py_format wus_failed_template [scan_id scan, state] :: 'e exn + string) =
      Inl IndexError"
    by (rule wus_failed_format)
  have c: "state \<noteq> ''failed'' \<longrightarrow> status scan t = Inr (PyStr ''failed'') \<longrightarrow>
      wus_failed_check scan state t = (Inl IndexError, t @ [Status (Inr (PyStr ''failed''))])"
    by (simp add: wus_failed_check_def wus_failed_format raise_formatted_def)
  have d: "\<forall>m. fst (wait_until_state scan timeout state) \<noteq> Inl (FailedScanException m)"
    using wus_loop_outcome[of scan timeout state "[]"] by (auto simp: wait_until_state_def)
  from a b c d show ?thesis by blast
qed

theorem wus_failed_branch_index_error_witness:
  "''completed'' \<noteq> ''failed'' \<and>
   status (scan_by_call (seq [] (Inr (PyStr ''failed'') :: string + pyval))) [] =
     Inr (PyStr ''failed'') \<and>
   wus_failed_check (scan_by_call (seq [] (Inr (PyStr ''failed'') :: string + pyval)))
       ''completed'' [] =
     (Inl IndexError, [Status (Inr (PyStr ''failed''))])"
  using wus_failed_branch_index_error
    [of "scan_by_call (seq [] (Inr (PyStr ''failed'') :: string + pyval))" "''completed''"
        "[]" 120]
  by (simp add: example_defs)

subsection \<open>A status that is already the target, and \<open>failed\<close> as the target\<close>



text \<open>
  Claim C8. With the target \<open>'failed'\<close> and a job that is \<open>running\<close> and then
  \<open>failed\<close>, the waiter returns: \<open>wait_for_scan\<close> after two polls and one sleep,
  provided \<open>timeout > 5\<close>; \<open>wait_until_state\<close> after one sleep when the status
  changes while it sleeps (\<open>timeout > 5\<close>), and at once when the two fetches of its
  first loop condition already see \<open>running\<close> and then \<open>failed\<close>. The outcome is the
  plain return, so no \<open>FailedScanException\<close> is raised.
\<close>

theorem wait_for_failed_reached:
  "(5 < timeout \<longrightarrow> scan_job cli scan_job_id [] = Inr ra \<longrightarrow>
      map_of ra ''status'' = Some (PyStr ''running'') \<longrightarrow>
      scan_job cli scan_job_id [ScanJob (Inr ra), Sleep 5] = Inr rb \<longrightarrow>
      map_of rb ''status'' = Some (PyStr ''failed'') \<longrightarrow>
      wait_for_scan cli scan_job_id ''failed'' timeout =
        (Inr (), [ScanJob (Inr ra), Sleep 5, ScanJob (Inr rb)])) \<and>
   (5 < timeout \<longrightarrow>
      (\<forall>t. status scan t = Inr (PyStr (if sleeps t = 0 then ''running'' else ''failed''))) \<longrightarrow>
      wait_until_state scan timeout ''failed'' =
        (Inr (), [Status (Inr (PyStr ''running'')), Status (Inr (PyStr ''running'')), Sleep 5,
                  Status (Inr (PyStr ''failed'')), Status (Inr (PyStr ''failed''))])) \<and>
   (status scanb [] = Inr (PyStr ''running'') \<longrightarrow>
      status scanb [Status (Inr (PyStr ''running''))] = Inr (PyStr ''failed'') \<longrightarrow>
      wait_until_state scanb timeoutb ''failed'' =
        (Inr (), [Status (Inr (PyStr ''running'')), Status (Inr (PyStr ''failed''))]))"
proof -
  have a: "5 < timeout \<longrightarrow> scan_job cli scan_job_id [] = Inr ra \<longrightarrow>
      map_of ra ''status'' = Some (PyStr ''running'') \<longrightarrow>
      scan_job cli scan_job_id [ScanJob (Inr ra), Sleep 5] = Inr rb \<longrightarrow>
      map_of rb ''status'' = Some (PyStr ''failed'') \<longrightarrow>
      wait_for_scan cli scan_job_id ''failed'' timeout =
        (Inr (), [ScanJob (Inr ra), Sleep 5, ScanJob (Inr rb)])"
    by (simp add: wfs_defs)
  have b: "5 < timeout \<longrightarrow>
      (\<forall>t. status scan t = Inr (PyStr (if sleeps t = 0 then ''running'' else ''failed''))) \<longrightarrow>
      wait_until_state scan timeout ''failed'' =
        (Inr (), [Status (Inr (PyStr ''running'')), Status (Inr (PyStr ''running'')), Sleep 5,
                  Status (Inr (PyStr ''failed'')), Status (Inr (PyStr ''failed''))])"
    by (simp add: wus_defs sleeps_def)
  have c: "status scanb [] = Inr (PyStr ''running'') \<longrightarrow>
      status scanb [Status (Inr (PyStr ''running''))] = Inr (PyStr ''failed'') \<longrightarrow>
      wait_until_state scanb timeoutb ''failed'' =
        (Inr (), [Status (Inr (PyStr ''running'')), Status (Inr (PyStr ''failed''))])"
    by (simp add: wus_defs)
  from a b c show ?thesis by blast
qed

theorem wait_for_failed_reached_witness:
  "wait_for_scan (cli_by_call (seq [Inr (job ''running'')] (Inr (job ''failed'') :: string + result)))
       ''7'' ''failed'' 900 =
     (Inr (), [ScanJob (Inr (job ''running'')), Sleep 5, ScanJob (Inr (job ''failed''))]) \<and>
   wait_until_state (scan_by_time (seq [Inr (PyStr ''running'')] (Inr (PyStr ''failed'') :: string + pyval)))
       900 ''failed'' =
     (Inr (), [Status (Inr (PyStr ''running'')), Status (Inr (PyStr ''running'')), Sleep 5,
               Status (Inr (PyStr ''failed'')), Status (Inr (PyStr ''failed''))]) \<and>
   wait_until_state (scan_by_call (seq [Inr (PyStr ''running'')] (Inr (PyStr ''failed'') :: string + pyval)))
       120 ''failed'' =
     (Inr (), [Status (Inr (PyStr ''running'')), Status (Inr (PyStr ''failed''))])"
proof -
  have by_time: "\<forall>t. status (scan_by_time (seq [Inr (PyStr ''running'')]
        (Inr (PyStr ''failed'') :: string + pyval))) t =
      Inr (PyStr (if sleeps t = 0 then ''running'' else ''failed''))"
    by (simp add: scan_by_time_def seq_def)
  from by_time wait_for_failed_reached
    [where timeout = 900
       and cli = "cli_by_call (seq [Inr (job ''running'')] (Inr (job ''failed'') :: string + result))"
       and scan_job_id = "''7''" and ra = "job ''running''" and rb = "job ''failed''"
       and scan = "scan_by_time (seq [Inr (PyStr ''running'')] (Inr (PyStr ''failed'') :: string + pyval))"
       and scanb = "scan_by_call (seq [Inr (PyStr ''running'')] (Inr (PyStr ''failed'') :: string + pyval))"
       and timeoutb = 120]
  show ?thesis
    by (simp add: seq_def cli_by_call_def scan_by_call_def polls_def job_def)
qed

text \<open>
  Claim C2 says that a job that fails while another status is awaited makes the
  waiter raise \<open>FailedScanException\<close>. \<open>wait_until_state\<close> does not: on a scan
  that is \<open>running\<close> and \<open>failed\<close> after the first sleep, awaited for
  \<open>'completed'\<close> with \<open>timeout = 120\<close>, it takes the failed branch and ends with
  the \<open>IndexError\<close> of the formatting of the message.
\<close>

theorem wait_until_state_failed_scan_index_error:
  "wait_until_state
       (scan_by_time (seq [Inr (PyStr ''running'')] (Inr (PyStr ''failed'') :: string + pyval)))
       120 ''completed'' =
     (Inl IndexError,
      [Status (Inr (PyStr ''running'')), Status (Inr (PyStr ''running'')), Sleep 5,
       Status (Inr (PyStr ''failed''))])"
  by (simp add: wus_defs example_defs wus_failed_format)

subsection \<open>The loops, one turn at a time\<close>

lemma slept_append: "slept (a @ b) = slept a + slept b"
  by (induction a rule: slept.induct) simp_all

lemma sleeps_append: "sleeps (a @ b) = sleeps a + sleeps b"
  by (simp add: sleeps_def)

lemma polls_append: "polls (a @ b) = polls a + polls b"
  by (simp add: polls_def)

lemma sleeps_simps [simp]:
  "sleeps [] = 0" "sleeps (Sleep d # t) = Suc (sleeps t)" "sleeps (Status r # t) = sleeps t"
  "sleeps (ScanJob j # t) = sleeps t" "sleeps (Read x # t) = sleeps t"
  "sleeps (Results x # t) = sleeps t"
  by (simp_all add: sleeps_def)

lemma polls_simps [simp]:
  "polls [] = 0" "polls (Sleep d # t) = polls t" "polls (Status r # t) = Suc (polls t)"
  "polls (ScanJob j # t) = Suc (polls t)" "polls (Read x # t) = polls t"
  "polls (Results x # t) = polls t"
  by (simp_all add: polls_def)

text \<open>The five ways one turn of the loop of \<open>wait_for_scan\<close> goes.\<close>

lemma wfs_loop_cases:
  assumes "wait_for_scan_loop cli i st timeout res t = (out, t')"
  obtains
    (stop) "\<not> 0 < timeout" "t' = t"
      "out = (case res of None \<Rightarrow> Inl (UnboundLocalError ''result'')
              | Some r \<Rightarrow> Inl (raise_formatted WaitTimeError
                  (py_format wfs_timeout_template [i, st, pformat cli r])))"
  | (source) e where "0 < timeout" "scan_job cli i t = Inl e" "out = Inl (Raised e)"
      "t' = t @ [ScanJob (Inl e)]"
  | (check) r x where "0 < timeout" "scan_job cli i t = Inr r" "wfs_checks cli i st r = Inl x"
      "out = Inl x" "t' = t @ [ScanJob (Inr r)]"
  | (return) r where "0 < timeout" "scan_job cli i t = Inr r" "wfs_checks cli i st r = Inr True"
      "out = Inr ()" "t' = t @ [ScanJob (Inr r)]"
  | (again) r where "0 < timeout" "scan_job cli i t = Inr r" "wfs_checks cli i st r = Inr False"
      "wait_for_scan_loop cli i st (timeout - 5) (Some r) (t @ [ScanJob (Inr r), Sleep 5]) = (out, t')"
  using assms
  by (subst (asm) wait_for_scan_loop.simps) (auto split: if_splits sum.splits option.splits)

lemma wfs_checks_eq:
  "wfs_checks cli i st r =
     (case map_of r ''status'' of
        None \<Rightarrow> Inl (KeyError ''status'')
      | Some v \<Rightarrow>
          if st \<noteq> ''failed'' \<and> v = PyStr ''failed'' then
            Inl (raise_formatted FailedScanException
                   (py_format wfs_failed_template [i, pformat cli r]))
          else Inr (v = PyStr st))"
  by (cases "map_of r ''status''") (simp_all add: wfs_checks_def getitem_def)

lemma wfs_checks_raises:
  "wfs_checks cli i st r = Inl x \<Longrightarrow> (\<exists>m. x = FailedScanException m) \<or> (\<exists>k. x = KeyError k)"
  by (cases "map_of r ''status''")
    (auto simp: wfs_checks_eq raise_formatted_def wfs_failed_format split: if_splits)

text \<open>
  The loop of \<open>wait_until_state\<close>: induction over its turns, and the five ways one
  turn goes.
\<close>

lemma wus_loop_induct [case_names step]:
  assumes "\<And>scan timeout state t.
     (\<And>t1 t2. wus_cond scan state timeout t = (Inr True, t1) \<Longrightarrow> 5 < timeout \<Longrightarrow>
        wus_failed_check scan state (t1 @ [Sleep 5]) = (Inr (), t2) \<Longrightarrow>
        P scan (timeout - 5) state t2) \<Longrightarrow>
     P scan timeout state t"
  shows "P scan timeout state t"
proof (induction scan timeout state t rule: wait_until_state_loop.induct)
  case (1 scan timeout state t)
  show ?case
  proof (rule assms)
    fix t1 t2
    assume c: "wus_cond scan state timeout t = (Inr True, t1)" and b: "5 < timeout"
      and f: "wus_failed_check scan state (t1 @ [Sleep 5]) = (Inr (), t2)"
    show "P scan (timeout - 5) state t2"
      by (rule "1.IH"[of "Inr True" t1 True "Inr ()" t2 "()"]) (use c b f in simp_all)
  qed
qed

lemma wus_loop_cases:
  assumes "wait_until_state_loop scan timeout state t = (out, t')"
  obtains
    (source) e where "wus_cond scan state timeout t = (Inl (Raised e), t')" "out = Inl (Raised e)"
  | (return) "wus_cond scan state timeout t = (Inr False, t')" "out = Inr ()"
  | (timed_out) t1 where "wus_cond scan state timeout t = (Inr True, t1)" "0 < timeout"
      "timeout \<le> 5" "wus_timed_out scan state (t1 @ [Sleep 5]) = (out, t')"
  | (failed) t1 x where "wus_cond scan state timeout t = (Inr True, t1)" "5 < timeout"
      "wus_failed_check scan state (t1 @ [Sleep 5]) = (Inl x, t')" "out = Inl x"
  | (again) t1 t2 where "wus_cond scan state timeout t = (Inr True, t1)" "5 < timeout"
      "wus_failed_check scan state (t1 @ [Sleep 5]) = (Inr (), t2)"
      "wait_until_state_loop scan (timeout - 5) state t2 = (out, t')"
proof -
  obtain x t1 where c: "wus_cond scan state timeout t = (x, t1)"
    by (cases "wus_cond scan state timeout t")
  show thesis
  proof (cases x)
    case (Inl a)
    with c obtain e where "a = Raised e" by (auto dest: wus_cond_raises)
    with c Inl assms show thesis
      by (intro source[of e]) (simp_all add: wait_until_state_loop.simps)
  next
    case (Inr go)
    show thesis
    proof (cases go)
      case False
      with c Inr assms show thesis
        by (intro return) (simp_all add: wait_until_state_loop.simps)
    next
      case True
      with c Inr have pos: "0 < timeout"
        by (auto simp: wus_cond_def split: sum.splits if_splits)
      show thesis
      proof (cases "timeout \<le> 5")
        case le: True
        with c Inr True assms pos show thesis
          by (intro timed_out[of t1]) (simp_all add: wait_until_state_loop.simps)
      next
        case gt: False
        obtain y t2 where f: "wus_failed_check scan state (t1 @ [Sleep 5]) = (y, t2)"
          by (cases "wus_failed_check scan state (t1 @ [Sleep 5])")
        show thesis
        proof (cases y)
          case (Inl b)
          with c \<open>x = Inr go\<close> True assms gt f show thesis
            by (intro failed[of t1 b]) (simp_all add: wait_until_state_loop.simps)
        next
          case (Inr u)
          with c \<open>x = Inr go\<close> True assms gt f show thesis
            by (intro again[of t1 t2]) (simp_all add: wait_until_state_loop.simps)
        qed
      qed
    qed
  qed
qed

subsection \<open>The polling interval and the number of sleeps\<close>

lemma ceil5: "\<lceil>real_of_int t / 5\<rceil> = (t + 4) div 5"
proof -
  have "\<lceil>real_of_int t / real_of_int 5\<rceil> = - (- t div 5)" by (rule ceiling_divide_eq_div)
  then show ?thesis by simp
qed

lemma ceil5_step:
  assumes "0 < (t::int)"
  shows "nat ((t + 4) div 5) = Suc (nat ((t - 5 + 4) div 5))"
proof -
  have a: "(t + 4) div 5 = (t - 5 + 4) div 5 + 1" by presburger
  have b: "0 \<le> (t - 5 + 4) div 5" using assms by presburger
  from a b show ?thesis by simp
qed

lemma slept_quiet: "\<forall>ev\<in>set xs. \<not> is_sleep ev \<Longrightarrow> slept xs = 0"
  by (induction xs rule: slept.induct) simp_all

lemma sleeps_quiet: "\<forall>ev\<in>set xs. \<not> is_sleep ev \<Longrightarrow> sleeps xs = 0"
  by (simp add: sleeps_def)

lemma sleeps_ok_quiet:
  assumes "\<forall>ev\<in>set xs. \<not> is_sleep ev" "sleeps_ok timeout (t @ xs) run"
  shows "sleeps_ok timeout t run"
proof -
  have s: "sleeps (t @ xs) = sleeps t" "slept (t @ xs) = slept t"
    using assms(1) by (simp_all add: sleeps_append slept_append slept_quiet sleeps_quiet)
  from assms(2) have c: "\<forall>ev\<in>set (snd run). is_sleep ev \<longrightarrow> ev = Sleep 5 \<or> ev \<in> set (t @ xs)"
    unfolding sleeps_ok_def by blast
  with assms(1) have c': "\<forall>ev\<in>set (snd run). is_sleep ev \<longrightarrow> ev = Sleep 5 \<or> ev \<in> set t"
    by auto
  from assms(2) c' show ?thesis unfolding sleeps_ok_def s by blast
qed

lemma sleeps_ok_sleep:
  assumes "0 < timeout" "sleeps_ok (timeout - 5) (t @ [Sleep 5]) run"
  shows "sleeps_ok timeout t run"
proof -
  have ar: "nat ((timeout + 4) div 5) = Suc (nat ((timeout - 5 + 4) div 5))"
    using assms(1) by (rule ceil5_step)
  have s: "sleeps (t @ [Sleep 5]) = Suc (sleeps t)" "slept (t @ [Sleep 5]) = slept t + 5"
    by (simp_all add: sleeps_append slept_append)
  from assms(2) have a: "sleeps (snd run) \<le> Suc (sleeps t) + nat ((timeout - 5 + 4) div 5)"
    and b: "slept (snd run) = slept t + 5 + 5 * (int (sleeps (snd run)) - int (Suc (sleeps t)))"
    and c: "\<forall>ev'\<in>set (snd run). is_sleep ev' \<longrightarrow> ev' = Sleep 5 \<or> ev' \<in> set (t @ [Sleep 5])"
    and d: "(\<exists>m. fst run = Inl (WaitTimeError m)) \<longrightarrow>
        sleeps (snd run) = Suc (sleeps t) + nat ((timeout - 5 + 4) div 5)"
    unfolding sleeps_ok_def s by blast+
  from a ar have a': "sleeps (snd run) \<le> sleeps t + nat ((timeout + 4) div 5)" by simp
  from b have b': "slept (snd run) = slept t + 5 * (int (sleeps (snd run)) - int (sleeps t))" by simp
  from c have c': "\<forall>ev'\<in>set (snd run). is_sleep ev' \<longrightarrow> ev' = Sleep 5 \<or> ev' \<in> set t"
    by auto
  from d ar have d': "(\<exists>m. fst run = Inl (WaitTimeError m)) \<longrightarrow>
        sleeps (snd run) = sleeps t + nat ((timeout + 4) div 5)" by simp
  from a' b' c' d' show ?thesis unfolding sleeps_ok_def by blast
qed

lemma sleeps_ok_end:
  "(\<forall>m. out \<noteq> Inl (WaitTimeError m)) \<or> timeout \<le> 0 \<Longrightarrow> sleeps_ok timeout t (out, t)"
proof -
  assume a: "(\<forall>m. out \<noteq> Inl (WaitTimeError m)) \<or> timeout \<le> 0"
  have "timeout \<le> 0 \<Longrightarrow> nat ((timeout + 4) div 5) = 0" by simp
  with a show ?thesis by (auto simp: sleeps_ok_def)
qed

lemma wfs_loop_sleeps:
  "sleeps_ok timeout t (wait_for_scan_loop cli i st timeout res t)"
proof (induction cli i st timeout res t rule: wait_for_scan_loop.induct)
  case (1 cli i st timeout res t)
  obtain out t' where run: "wait_for_scan_loop cli i st timeout res t = (out, t')"
    by (cases "wait_for_scan_loop cli i st timeout res t")
  have here: "sleeps_ok timeout t (x, t @ [ScanJob j])"
    if "\<forall>m. x \<noteq> Inl (WaitTimeError m)" for j x
  proof -
    from that have "sleeps_ok timeout (t @ [ScanJob j]) (x, t @ [ScanJob j])"
      by (intro sleeps_ok_end) simp
    then show ?thesis by (rule sleeps_ok_quiet[rotated]) simp
  qed
  from run have "sleeps_ok timeout t (out, t')"
  proof (cases rule: wfs_loop_cases)
    case stop
    then show ?thesis by (simp add: sleeps_ok_end)
  next
    case (source e)
    then show ?thesis by (simp add: here)
  next
    case (check r x)
    with wfs_checks_raises[of cli i st r x] show ?thesis by (auto simp: here)
  next
    case (return r)
    then show ?thesis by (simp add: here)
  next
    case (again r)
    from "1.IH"[OF again(1) again(2) again(3)] again(4)
    have "sleeps_ok (timeout - 5) ((t @ [ScanJob (Inr r)]) @ [Sleep 5]) (out, t')" by simp
    from sleeps_ok_sleep[OF again(1) this] show ?thesis
      by (rule sleeps_ok_quiet[rotated]) simp
  qed
  with run show ?case by simp
qed

lemma wus_cond_quiet:
  "wus_cond scan state timeout t = (x, t1) \<Longrightarrow> \<exists>xs. t1 = t @ xs \<and> (\<forall>ev\<in>set xs. \<not> is_sleep ev)"
  by (drule wus_cond_trace) auto

lemma wus_timed_out_quiet:
  "wus_timed_out scan state t = (out, t') \<Longrightarrow> \<exists>xs. t' = t @ xs \<and> (\<forall>ev\<in>set xs. \<not> is_sleep ev)"
  by (auto simp: wus_timed_out_def split: sum.splits)

lemma wus_failed_check_quiet:
  "wus_failed_check scan state t = (y, t2) \<Longrightarrow> \<exists>xs. t2 = t @ xs \<and> (\<forall>ev\<in>set xs. \<not> is_sleep ev)"
  by (auto simp: wus_failed_check_def split: sum.splits if_splits)

lemma wus_loop_sleeps:
  "sleeps_ok timeout t (wait_until_state_loop scan timeout state t)"
proof (induction scan timeout state t rule: wus_loop_induct)
  case (step scan timeout state t)
  obtain out t' where run: "wait_until_state_loop scan timeout state t = (out, t')"
    by (cases "wait_until_state_loop scan timeout state t")
  from run have "sleeps_ok timeout t (out, t')"
  proof (cases rule: wus_loop_cases)
    case (source e)
    from wus_cond_quiet[OF source(1)] obtain xs where xs: "t' = t @ xs" "\<forall>ev\<in>set xs. \<not> is_sleep ev"
      by blast
    have "sleeps_ok timeout (t @ xs) (out, t @ xs)" using source(2) by (intro sleeps_ok_end) simp
    from sleeps_ok_quiet[OF xs(2) this] xs(1) show ?thesis by simp
  next
    case return
    from wus_cond_quiet[OF return(1)] obtain xs where xs: "t' = t @ xs" "\<forall>ev\<in>set xs. \<not> is_sleep ev"
      by blast
    have "sleeps_ok timeout (t @ xs) (out, t @ xs)" using return(2) by (intro sleeps_ok_end) simp
    from sleeps_ok_quiet[OF xs(2) this] xs(1) show ?thesis by simp
  next
    case (timed_out t1)
    from wus_cond_quiet[OF timed_out(1)] obtain xs where xs: "t1 = t @ xs" "\<forall>ev\<in>set xs. \<not> is_sleep ev"
      by blast
    from wus_timed_out_quiet[OF timed_out(4)] obtain ys
      where ys: "t' = (t1 @ [Sleep 5]) @ ys" "\<forall>ev\<in>set ys. \<not> is_sleep ev" by blast
    have "sleeps_ok (timeout - 5) ((t1 @ [Sleep 5]) @ ys) (out, (t1 @ [Sleep 5]) @ ys)"
      using timed_out(3) by (intro sleeps_ok_end) simp
    from sleeps_ok_quiet[OF ys(2) this] have "sleeps_ok (timeout - 5) (t1 @ [Sleep 5]) (out, t')"
      using ys(1) by simp
    from sleeps_ok_sleep[OF timed_out(2) this] have "sleeps_ok timeout (t @ xs) (out, t')"
      using xs(1) by simp
    from sleeps_ok_quiet[OF xs(2) this] show ?thesis .
  next
    case (failed t1 x)
    from wus_cond_quiet[OF failed(1)] obtain xs where xs: "t1 = t @ xs" "\<forall>ev\<in>set xs. \<not> is_sleep ev"
      by blast
    from wus_failed_check_quiet[OF failed(3)] obtain ys
      where ys: "t' = (t1 @ [Sleep 5]) @ ys" "\<forall>ev\<in>set ys. \<not> is_sleep ev" by blast
    from wus_failed_check_raises[OF failed(3)] failed(4) have "\<forall>m. out \<noteq> Inl (WaitTimeError m)"
      by auto
    then have "sleeps_ok (timeout - 5) ((t1 @ [Sleep 5]) @ ys) (out, (t1 @ [Sleep 5]) @ ys)"
      by (intro sleeps_ok_end) simp
    from sleeps_ok_quiet[OF ys(2) this] have "sleeps_ok (timeout - 5) (t1 @ [Sleep 5]) (out, t')"
      using ys(1) by simp
    from sleeps_ok_sleep[OF _ this] failed(2) have "sleeps_ok timeout (t @ xs) (out, t')"
      using xs(1) by simp
    from sleeps_ok_quiet[OF xs(2) this] show ?thesis .
  next
    case (again t1 t2)
    from wus_cond_quiet[OF again(1)] obtain xs where xs: "t1 = t @ xs" "\<forall>ev\<in>set xs. \<not> is_sleep ev"
      by blast
    from wus_failed_check_quiet[OF again(3)] obtain ys
      where ys: "t2 = (t1 @ [Sleep 5]) @ ys" "\<forall>ev\<in>set ys. \<not> is_sleep ev" by blast
    from step[OF again(1) again(2) again(3)] again(4)
    have "sleeps_ok (timeout - 5) ((t1 @ [Sleep 5]) @ ys) (out, t')" using ys(1) by simp
    from sleeps_ok_quiet[OF ys(2) this] have "sleeps_ok (timeout - 5) (t1 @ [Sleep 5]) (out, t')" .
    from sleeps_ok_sleep[OF _ this] again(2) have "sleeps_ok timeout (t @ xs) (out, t')"
      using xs(1) by simp
    from sleeps_ok_quiet[OF xs(2) this] show ?thesis .
  qed
  with run show ?case by simp
qed

lemma sleeps_ok_top:
  assumes "sleeps_ok timeout [] run"
  shows "(\<forall>ev\<in>set (snd run). is_sleep ev \<longrightarrow> ev = Sleep 5) \<and>
         slept (snd run) = 5 * int (sleeps (snd run)) \<and>
         (0 < timeout \<longrightarrow> int (sleeps (snd run)) \<le> \<lceil>real_of_int timeout / 5\<rceil>) \<and>
         (0 < timeout \<longrightarrow> (\<exists>m. fst run = Inl (WaitTimeError m)) \<longrightarrow>
            int (sleeps (snd run)) = \<lceil>real_of_int timeout / 5\<rceil> \<and>
            slept (snd run) = \<lceil>real_of_int timeout / 5\<rceil> * 5)"
proof -
  from assms have a: "sleeps (snd run) \<le> nat ((timeout + 4) div 5)"
    and b: "slept (snd run) = 5 * int (sleeps (snd run))"
    and c: "\<forall>ev\<in>set (snd run). is_sleep ev \<longrightarrow> ev = Sleep 5"
    and d: "(\<exists>m. fst run = Inl (WaitTimeError m)) \<longrightarrow> sleeps (snd run) = nat ((timeout + 4) div 5)"
    by (simp_all add: sleeps_ok_def)
  have n: "0 < timeout \<Longrightarrow> int (nat ((timeout + 4) div 5)) = (timeout + 4) div 5"
    by simp
  from a n have a': "0 < timeout \<longrightarrow> int (sleeps (snd run)) \<le> \<lceil>real_of_int timeout / 5\<rceil>"
    by (simp add: ceil5) linarith
  from d n have d': "0 < timeout \<longrightarrow> (\<exists>m. fst run = Inl (WaitTimeError m)) \<longrightarrow>
      int (sleeps (snd run)) = \<lceil>real_of_int timeout / 5\<rceil>"
    by (simp add: ceil5)
  from d' b have e': "0 < timeout \<longrightarrow> (\<exists>m. fst run = Inl (WaitTimeError m)) \<longrightarrow>
      slept (snd run) = \<lceil>real_of_int timeout / 5\<rceil> * 5"
    by simp
  from a' b c d' e' show ?thesis by blast
qed

lemma wfs_timed_out_positive:
  "fst (wait_for_scan cli i st timeout) = Inl (WaitTimeError m) \<Longrightarrow> 0 < timeout"
  by (rule ccontr) (simp add: wait_for_scan_def wait_for_scan_loop.simps)

lemma wus_timed_out_positive:
  assumes "fst (wait_until_state scan timeout state) = Inl (WaitTimeError m)"
  shows "0 < timeout"
proof (rule ccontr)
  assume n: "\<not> 0 < timeout"
  obtain x t1 where c: "wus_cond scan state timeout [] = (x, t1)"
    by (cases "wus_cond scan state timeout []")
  from n wus_cond_nonpositive[OF _ c] have "x = Inr False \<or> (\<exists>e. x = Inl (Raised e))" by simp
  with c assms show False
    by (auto simp: wait_until_state_def wait_until_state_loop.simps)
qed

text \<open>
  Claim C5. Every sleep of a run lasts 5 seconds, so the time slept is five times
  the number of sleeps; a turn of either loop that goes on to the next one goes on
  with the timeout decremented by exactly 5, after one sleep; and a run that ends
  with \<open>WaitTimeError\<close> has slept at most \<open>ceil(timeout / 5)\<close> times, hence at most
  \<open>ceil(timeout / 5) * 5\<close> seconds.
\<close>

theorem polling_interval_and_sleep_bound:
  "(\<forall>ev\<in>set (snd (wait_for_scan cli i st timeout)). is_sleep ev \<longrightarrow> ev = Sleep 5) \<and>
   (\<forall>ev\<in>set (snd (wait_until_state scan timeout state)). is_sleep ev \<longrightarrow> ev = Sleep 5) \<and>
   slept (snd (wait_for_scan cli i st timeout)) =
     5 * int (sleeps (snd (wait_for_scan cli i st timeout))) \<and>
   slept (snd (wait_until_state scan timeout state)) =
     5 * int (sleeps (snd (wait_until_state scan timeout state))) \<and>
   (0 < timeout \<longrightarrow> scan_job cli i t = Inr r \<longrightarrow> wfs_checks cli i st r = Inr False \<longrightarrow>
      wait_for_scan_loop cli i st timeout res t =
        wait_for_scan_loop cli i st (timeout - 5) (Some r) (t @ [ScanJob (Inr r), Sleep 5])) \<and>
   (5 < timeout \<longrightarrow> wus_cond scan state timeout h = (Inr True, ha) \<longrightarrow>
      wus_failed_check scan state (ha @ [Sleep 5]) = (Inr (), hb) \<longrightarrow>
      wait_until_state_loop scan timeout state h =
        wait_until_state_loop scan (timeout - 5) state hb) \<and>
   ((\<exists>m. fst (wait_for_scan cli i st timeout) = Inl (WaitTimeError m)) \<longrightarrow>
      int (sleeps (snd (wait_for_scan cli i st timeout))) \<le> \<lceil>real_of_int timeout / 5\<rceil> \<and>
      slept (snd (wait_for_scan cli i st timeout)) \<le> \<lceil>real_of_int timeout / 5\<rceil> * 5) \<and>
   ((\<exists>m. fst (wait_until_state scan timeout state) = Inl (WaitTimeError m)) \<longrightarrow>
      int (sleeps (snd (wait_until_state scan timeout state))) \<le> \<lceil>real_of_int timeout / 5\<rceil> \<and>
      slept (snd (wait_until_state scan timeout state)) \<le> \<lceil>real_of_int timeout / 5\<rceil> * 5)"
proof -
  have wfs: "sleeps_ok timeout [] (wait_for_scan cli i st timeout)"
    unfolding wait_for_scan_def by (rule wfs_loop_sleeps)
  have wus: "sleeps_ok timeout [] (wait_until_state scan timeout state)"
    unfolding wait_until_state_def by (rule wus_loop_sleeps)
  have dec_wfs: "0 < timeout \<longrightarrow> scan_job cli i t = Inr r \<longrightarrow> wfs_checks cli i st r = Inr False \<longrightarrow>
      wait_for_scan_loop cli i st timeout res t =
        wait_for_scan_loop cli i st (timeout - 5) (Some r) (t @ [ScanJob (Inr r), Sleep 5])"
    by (simp add: wait_for_scan_loop.simps[of cli i st timeout res t])
  have dec_wus: "5 < timeout \<longrightarrow> wus_cond scan state timeout h = (Inr True, ha) \<longrightarrow>
      wus_failed_check scan state (ha @ [Sleep 5]) = (Inr (), hb) \<longrightarrow>
      wait_until_state_loop scan timeout state h =
        wait_until_state_loop scan (timeout - 5) state hb"
    by (simp add: wait_until_state_loop.simps[of scan timeout state h])
  have pos_wfs: "(\<exists>m. fst (wait_for_scan cli i st timeout) = Inl (WaitTimeError m)) \<longrightarrow> 0 < timeout"
    by (auto dest: wfs_timed_out_positive)
  have pos_wus: "(\<exists>m. fst (wait_until_state scan timeout state) = Inl (WaitTimeError m)) \<longrightarrow> 0 < timeout"
    by (auto dest: wus_timed_out_positive)
  from sleeps_ok_top[OF wfs] pos_wfs
  have a: "(\<forall>ev\<in>set (snd (wait_for_scan cli i st timeout)). is_sleep ev \<longrightarrow> ev = Sleep 5)"
    "slept (snd (wait_for_scan cli i st timeout)) =
       5 * int (sleeps (snd (wait_for_scan cli i st timeout)))"
    "(\<exists>m. fst (wait_for_scan cli i st timeout) = Inl (WaitTimeError m)) \<longrightarrow>
      int (sleeps (snd (wait_for_scan cli i st timeout))) \<le> \<lceil>real_of_int timeout / 5\<rceil> \<and>
      slept (snd (wait_for_scan cli i st timeout)) \<le> \<lceil>real_of_int timeout / 5\<rceil> * 5"
    by (blast, blast, force)
  from sleeps_ok_top[OF wus] pos_wus
  have b: "(\<forall>ev\<in>set (snd (wait_until_state scan timeout state)). is_sleep ev \<longrightarrow> ev = Sleep 5)"
    "slept (snd (wait_until_state scan timeout state)) =
       5 * int (sleeps (snd (wait_until_state scan timeout state)))"
    "(\<exists>m. fst (wait_until_state scan timeout state) = Inl (WaitTimeError m)) \<longrightarrow>
      int (sleeps (snd (wait_until_state scan timeout state))) \<le> \<lceil>real_of_int timeout / 5\<rceil> \<and>
      slept (snd (wait_until_state scan timeout state)) \<le> \<lceil>real_of_int timeout / 5\<rceil> * 5"
    by (blast, blast, force)
  from a b dec_wfs dec_wus show ?thesis by blast
qed

theorem polling_interval_and_sleep_bound_witness:
  "(\<exists>m. fst (wait_for_scan (cli_by_call (seq [] (Inr (job ''running'') :: string + result)))
              ''7'' ''completed'' 12) = Inl (WaitTimeError m)) \<and>
   int (sleeps (snd (wait_for_scan (cli_by_call (seq [] (Inr (job ''running'') :: string + result)))
              ''7'' ''completed'' 12))) \<le> \<lceil>real_of_int 12 / 5\<rceil> \<and>
   (\<exists>m. fst (wait_until_state (scan_by_call (seq [] (Inr (PyStr ''running'') :: string + pyval)))
              12 ''completed'') = Inl (WaitTimeError m)) \<and>
   slept (snd (wait_until_state (scan_by_call (seq [] (Inr (PyStr ''running'') :: string + pyval)))
              12 ''completed'')) \<le> \<lceil>real_of_int 12 / 5\<rceil> * 5 \<and>
   wait_for_scan_loop (cli_by_call (seq [] (Inr (job ''running'') :: string + result)))
       ''7'' ''completed'' 12 None [] =
     wait_for_scan_loop (cli_by_call (seq [] (Inr (job ''running'') :: string + result)))
       ''7'' ''completed'' (12 - 5) (Some (job ''running''))
       ([] @ [ScanJob (Inr (job ''running'')), Sleep 5]) \<and>
   wait_until_state_loop (scan_by_call (seq [] (Inr (PyStr ''running'') :: string + pyval)))
       12 ''completed'' [] =
     wait_until_state_loop (scan_by_call (seq [] (Inr (PyStr ''running'') :: string + pyval)))
       (12 - 5) ''completed''
       [Status (Inr (PyStr ''running'')), Status (Inr (PyStr ''running'')), Sleep 5,
        Status (Inr (PyStr ''running''))]"
proof -
  let ?C = "cli_by_call (seq [] (Inr (job ''running'') :: string + result))"
  let ?S = "scan_by_call (seq [] (Inr (PyStr ''running'') :: string + pyval))"
  have h1: "\<exists>m. fst (wait_for_scan ?C ''7'' ''completed'' 12) = Inl (WaitTimeError m)"
    by (simp add: wfs_defs example_defs wfs_timeout_format)
  have h2: "\<exists>m. fst (wait_until_state ?S 12 ''completed'') = Inl (WaitTimeError m)"
    by (simp add: wus_defs example_defs wus_timeout_format)
  have h3: "scan_job ?C ''7'' [] = Inr (job ''running'')"
    by (simp add: example_defs)
  have h4: "wfs_checks ?C ''7'' ''completed'' (job ''running'') = Inr False"
    by (simp add: wfs_checks_eq job_def)
  have h5: "wus_cond ?S ''completed'' 12 [] =
      (Inr True, [Status (Inr (PyStr ''running'')), Status (Inr (PyStr ''running''))])"
    by (simp add: wus_cond_def example_defs)
  have h6: "wus_failed_check ?S ''completed''
      ([Status (Inr (PyStr ''running'')), Status (Inr (PyStr ''running''))] @ [Sleep 5]) =
      (Inr (), [Status (Inr (PyStr ''running'')), Status (Inr (PyStr ''running'')), Sleep 5,
                Status (Inr (PyStr ''running''))])"
    by (simp add: wus_failed_check_def example_defs)
  have h7: "(0::int) < 12" "(5::int) < 12" by simp_all
  from polling_interval_and_sleep_bound
    [where timeout = 12 and cli = ?C and i = "''7''" and st = "''completed''" and scan = ?S
       and state = "''completed''" and t = "[]" and r = "job ''running''" and res = None
       and h = "[]"
       and ha = "[Status (Inr (PyStr ''running'')), Status (Inr (PyStr ''running''))]"
       and hb = "[Status (Inr (PyStr ''running'')), Status (Inr (PyStr ''running'')), Sleep 5,
                  Status (Inr (PyStr ''running''))]"]
    h1 h2 h3 h4 h5 h6 h7
  show ?thesis by blast
qed

subsection \<open>Errors of the status source\<close>

lemma clean_simps [simp]:
  "clean []" "clean (a @ b) \<longleftrightarrow> clean a \<and> clean b" "clean (ev # t) \<longleftrightarrow> raised_by ev = None \<and> clean t"
  by (auto simp: clean_def)












subsection \<open>The status in the message of \<open>WaitTimeError\<close>\<close>

lemma wfs_loop_timed_out:
  "wait_for_scan_loop (cli :: 'e cli) i st timeout res t = (Inl (WaitTimeError m), t') \<Longrightarrow>
     (t' = t \<and> (\<exists>r. res = Some r \<and> (py_format wfs_timeout_template [i, st, pformat cli r] :: 'e exn + string) = Inr m)) \<or>
     (\<exists>h r. t' = h @ [ScanJob (Inr r), Sleep 5] \<and>
        (py_format wfs_timeout_template [i, st, pformat cli r] :: 'e exn + string) = Inr m)"
proof (induction cli i st timeout res t rule: wait_for_scan_loop.induct)
  case (1 cli i st timeout res t)
  from "1.prems" show ?case
  proof (cases rule: wfs_loop_cases)
    case stop
    then show ?thesis
      by (cases res) (simp_all add: raise_formatted_def wfs_timeout_format)
  next
    case (source e)
    then show ?thesis by simp
  next
    case (check r x)
    with wfs_checks_raises[of cli i st r x] show ?thesis by auto
  next
    case (return r)
    then show ?thesis by simp
  next
    case (again r)
    from "1.IH"[OF again(1) again(2) again(3) _ again(4)] show ?thesis by auto
  qed
qed

lemma wus_timed_out_message:
  "wus_timed_out (scan :: 'e scan) state t = (Inl (WaitTimeError m), t') \<Longrightarrow>
     \<exists>v d r. t' = t @ [Status (Inr v), Read (Inr d), Results (Inr r)] \<and>
       (py_format wus_timeout_template [scan_id scan, state, py_str v, d, r] :: 'e exn + string) = Inr m"
  by (auto simp: wus_timed_out_def raise_formatted_def wus_timeout_format split: sum.splits)

lemma wus_loop_timed_out:
  "wait_until_state_loop (scan :: 'e scan) timeout state t = (Inl (WaitTimeError m), t') \<Longrightarrow>
     \<exists>h v d r. t' = h @ [Sleep 5, Status (Inr v), Read (Inr d), Results (Inr r)] \<and>
       (py_format wus_timeout_template [scan_id scan, state, py_str v, d, r] :: 'e exn + string) = Inr m"
proof (induction scan timeout state t rule: wus_loop_induct)
  case (step scan timeout state t)
  from step.prems show ?case
  proof (cases rule: wus_loop_cases)
    case (source e)
    then show ?thesis by simp
  next
    case return
    then show ?thesis by simp
  next
    case (timed_out t1)
    from wus_timed_out_message[OF timed_out(4)] show ?thesis by auto
  next
    case (failed t1 x)
    with wus_failed_check_raises[OF failed(3)] show ?thesis by auto
  next
    case (again t1 t2)
    from step.IH[OF again(1) again(2) again(3) again(4)] show ?thesis .
  qed
qed

text \<open>
  Claim C4, as stated: the status in the message of \<open>WaitTimeError\<close> is the one of the
  last poll before the timeout check, and no fresh status is fetched for the message.
  It fails for \<open>wait_until_state\<close>: on a scan that answers \<open>running\<close> to the two
  fetches of the loop condition and \<open>completed\<close> afterwards, with \<open>timeout = 5\<close>, the
  timeout check fires after the sleep and the message is built from a third,
  fresh fetch: it reports the state \<open>completed\<close>, which no poll before the check saw.
\<close>

theorem timed_out_status_counterexample:
  \<open>wait_until_state
       (scan_by_call (seq [Inr (PyStr ''running''), Inr (PyStr ''running'')]
          (Inr (PyStr ''completed'') :: string + pyval)))
       5 ''completed'' =
     (Inl (WaitTimeError
        (''You have called wait_until_state() on a scan with ID=7 and\<newline>'' @
         ''the scan timed out while waiting to achieve the state="completed"\<newline>'' @
         ''When the scan timed out, it had the state="completed".\<newline>'' @
         ''The full details of the scan were \<newline>details\<newline>'' @
         ''The "results" available from the scan were \<newline>results\<newline>'')),
      [Status (Inr (PyStr ''running'')), Status (Inr (PyStr ''running'')), Sleep 5,
       Status (Inr (PyStr ''completed'')), Read (Inr ''details''), Results (Inr ''results'')])\<close>
  by (simp add: wus_defs example_defs wus_timeout_format)

text \<open>
  Claim C4, amended. Whenever \<open>wait_for_scan\<close> raises \<open>WaitTimeError\<close>, the record
  in its message is the result \<open>r\<close> of the last poll, which is followed in the trace
  by the last sleep only: no fresh fetch is made for the message. Whenever
  \<open>wait_until_state\<close> raises \<open>WaitTimeError\<close>, the status \<open>v\<close> in its message is
  fetched afresh after the last sleep, by the \<open>scan.status()\<close> among the arguments of
  \<open>format\<close>, followed by the fetches of the details and of the results.
\<close>

theorem timed_out_status_source:
  "(fst (wait_for_scan (cli :: 'e cli) i st timeout) = Inl (WaitTimeError m) \<longrightarrow>
      (\<exists>h r. snd (wait_for_scan cli i st timeout) = h @ [ScanJob (Inr r), Sleep 5] \<and>
         (py_format wfs_timeout_template [i, st, pformat cli r] :: 'e exn + string) = Inr m)) \<and>
   (fst (wait_until_state (scan :: 'e scan) timeout state) = Inl (WaitTimeError ma) \<longrightarrow>
      (\<exists>h v d r. snd (wait_until_state scan timeout state) =
           h @ [Sleep 5, Status (Inr v), Read (Inr d), Results (Inr r)] \<and>
         (py_format wus_timeout_template [scan_id scan, state, py_str v, d, r] :: 'e exn + string) = Inr ma))"
proof -
  have a: "fst (wait_for_scan cli i st timeout) = Inl (WaitTimeError m) \<longrightarrow>
      (\<exists>h r. snd (wait_for_scan cli i st timeout) = h @ [ScanJob (Inr r), Sleep 5] \<and>
         (py_format wfs_timeout_template [i, st, pformat cli r] :: 'e exn + string) = Inr m)"
  proof
    assume "fst (wait_for_scan cli i st timeout) = Inl (WaitTimeError m)"
    then have "wait_for_scan_loop cli i st timeout None [] =
        (Inl (WaitTimeError m), snd (wait_for_scan cli i st timeout))"
      by (simp add: wait_for_scan_def prod_eq_iff)
    from wfs_loop_timed_out[OF this] show "\<exists>h r. snd (wait_for_scan cli i st timeout) =
        h @ [ScanJob (Inr r), Sleep 5] \<and> (py_format wfs_timeout_template [i, st, pformat cli r] :: 'e exn + string) = Inr m"
      by simp
  qed
  have b: "fst (wait_until_state scan timeout state) = Inl (WaitTimeError ma) \<longrightarrow>
      (\<exists>h v d r. snd (wait_until_state scan timeout state) =
           h @ [Sleep 5, Status (Inr v), Read (Inr d), Results (Inr r)] \<and>
         (py_format wus_timeout_template [scan_id scan, state, py_str v, d, r] :: 'e exn + string) = Inr ma)"
  proof
    assume "fst (wait_until_state scan timeout state) = Inl (WaitTimeError ma)"
    then have "wait_until_state_loop scan timeout state [] =
        (Inl (WaitTimeError ma), snd (wait_until_state scan timeout state))"
      by (simp add: wait_until_state_def prod_eq_iff)
    from wus_loop_timed_out[OF this] show "\<exists>h v d r. snd (wait_until_state scan timeout state) =
           h @ [Sleep 5, Status (Inr v), Read (Inr d), Results (Inr r)] \<and>
         (py_format wus_timeout_template [scan_id scan, state, py_str v, d, r] :: 'e exn + string) = Inr ma" .
  qed
  from a b show ?thesis by blast
qed

theorem timed_out_status_source_witness:
  \<open>fst (wait_for_scan (cli_by_call (seq [] (Inr (job ''running'') :: string + result)))
          ''7'' ''completed'' 5) =
     Inl (WaitTimeError
        (''Timeout waiting for scan with ID "7" to achieve the "completed" status.\<newline>\<newline>'' @
         ''The information about the scan is:\<newline>running\<newline>'')) \<and>
   (\<exists>h r. snd (wait_for_scan (cli_by_call (seq [] (Inr (job ''running'') :: string + result)))
              ''7'' ''completed'' 5) = h @ [ScanJob (Inr r), Sleep 5] \<and>
      py_format wfs_timeout_template [''7'', ''completed'', show_status r] =
        (Inr (''Timeout waiting for scan with ID "7" to achieve the "completed" status.\<newline>\<newline>'' @
              ''The information about the scan is:\<newline>running\<newline>'') :: string exn + string)) \<and>
   fst (wait_until_state (scan_by_call (seq [] (Inr (PyStr ''running'') :: string + pyval)))
          5 ''completed'') =
     Inl (WaitTimeError
        (''You have called wait_until_state() on a scan with ID=7 and\<newline>'' @
         ''the scan timed out while waiting to achieve the state="completed"\<newline>'' @
         ''When the scan timed out, it had the state="running".\<newline>'' @
         ''The full details of the scan were \<newline>details\<newline>'' @
         ''The "results" available from the scan were \<newline>results\<newline>'')) \<and>
   (\<exists>h v d r. snd (wait_until_state (scan_by_call (seq [] (Inr (PyStr ''running'') :: string + pyval)))
                  5 ''completed'') =
        h @ [Sleep 5, Status (Inr v), Read (Inr d), Results (Inr r)])\<close>
proof -
  let ?C = "cli_by_call (seq [] (Inr (job ''running'') :: string + result))"
  let ?S = "scan_by_call (seq [] (Inr (PyStr ''running'') :: string + pyval))"
  let ?m = \<open>''Timeout waiting for scan with ID "7" to achieve the "completed" status.\<newline>\<newline>'' @
         ''The information about the scan is:\<newline>running\<newline>''\<close>
  let ?ma = \<open>''You have called wait_until_state() on a scan with ID=7 and\<newline>'' @
         ''the scan timed out while waiting to achieve the state="completed"\<newline>'' @
         ''When the scan timed out, it had the state="running".\<newline>'' @
         ''The full details of the scan were \<newline>details\<newline>'' @
         ''The "results" available from the scan were \<newline>results\<newline>''\<close>
  have h1: "fst (wait_for_scan ?C ''7'' ''completed'' 5) = Inl (WaitTimeError ?m)"
    by (simp add: wfs_defs example_defs wfs_timeout_format)
  have h2: "fst (wait_until_state ?S 5 ''completed'') = Inl (WaitTimeError ?ma)"
    by (simp add: wus_defs example_defs wus_timeout_format)
  have p: "pformat ?C = show_status" by (simp add: cli_by_call_def)
  from timed_out_status_source
    [where cli = ?C and i = "''7''" and st = "''completed''" and timeout = 5 and m = ?m
       and scan = ?S and state = "''completed''" and ma = ?ma] h1 h2
  show ?thesis unfolding p by blast
qed

subsection \<open>Reaching the target at the n-th value of the status\<close>

text \<open>
  For \<open>wait_for_scan\<close> the status sequence is \<open>f\<close>, the results of the successive
  calls of \<open>scan_job\<close>. For \<open>wait_until_state\<close>, which fetches the status up to three
  times in a turn, it is \<open>g\<close>, the values the status takes between the sleeps.
\<close>

lemma wfs_checks_wait:
  "map_of r ''status'' = Some v \<Longrightarrow> v \<noteq> PyStr st \<Longrightarrow> v \<noteq> PyStr ''failed'' \<Longrightarrow>
     wfs_checks cli i st r = Inr False"
  by (simp add: wfs_checks_eq)

lemma wfs_checks_reached:
  "map_of r ''status'' = Some (PyStr st) \<Longrightarrow> wfs_checks cli i st r = Inr True"
  by (simp add: wfs_checks_eq)

lemma wfs_loop_skip:
  assumes src: "\<forall>h. scan_job cli i h = Inr (f (polls h))"
    and wait: "\<forall>k<m. wfs_checks cli i st (f (polls t + k)) = Inr False"
    and budget: "5 * int m < timeout + 5"
  shows "\<exists>t' res'. wait_for_scan_loop cli i st timeout res t =
           wait_for_scan_loop cli i st (timeout - 5 * int m) res' t' \<and>
         polls t' = polls t + m \<and> sleeps t' = sleeps t + m"
  using wait budget
proof (induction m arbitrary: t timeout res)
  case 0
  show ?case by (rule exI[of _ t], rule exI[of _ res]) simp
next
  case (Suc m)
  let ?r = "f (polls t)"
  let ?t = "t @ [ScanJob (Inr ?r), Sleep 5]"
  from Suc.prems(2) have pos: "0 < timeout" by simp
  from Suc.prems(1) have c: "wfs_checks cli i st ?r = Inr False" by force
  from src have s: "scan_job cli i t = Inr ?r" by simp
  from pos c s have turn: "wait_for_scan_loop cli i st timeout res t =
      wait_for_scan_loop cli i st (timeout - 5) (Some ?r) ?t"
    by (simp add: wait_for_scan_loop.simps[of cli i st timeout res t])
  have p: "polls ?t = Suc (polls t)" "sleeps ?t = Suc (sleeps t)"
    by (simp_all add: polls_append sleeps_append)
  have w: "\<forall>k<m. wfs_checks cli i st (f (polls ?t + k)) = Inr False"
  proof (intro allI impI)
    fix k assume "k < m"
    then have "Suc k < Suc m" by simp
    with Suc.prems(1) have "wfs_checks cli i st (f (polls t + Suc k)) = Inr False" by blast
    then show "wfs_checks cli i st (f (polls ?t + k)) = Inr False" by (simp add: p)
  qed
  from Suc.prems(2) have b: "5 * int m < timeout - 5 + 5" by simp
  from Suc.IH[OF w b, of "Some ?r"] obtain t' res'
    where "wait_for_scan_loop cli i st (timeout - 5) (Some ?r) ?t =
           wait_for_scan_loop cli i st (timeout - 5 - 5 * int m) res' t'"
      and "polls t' = polls ?t + m" "sleeps t' = sleeps ?t + m" by blast
  with turn p have "wait_for_scan_loop cli i st timeout res t =
           wait_for_scan_loop cli i st (timeout - 5 * int (Suc m)) res' t' \<and>
         polls t' = polls t + Suc m \<and> sleeps t' = sleeps t + Suc m"
    by (simp add: algebra_simps)
  then show ?case by blast
qed

lemma wfs_reaches:
  assumes n: "1 \<le> n"
    and src: "\<forall>h. scan_job cli i h = Inr (f (polls h))"
    and wait: "\<forall>k<n - 1. \<exists>v. map_of (f k) ''status'' = Some v \<and> v \<noteq> PyStr st \<and> v \<noteq> PyStr ''failed''"
    and reached: "map_of (f (n - 1)) ''status'' = Some (PyStr st)"
    and budget: "5 * (int n - 1) < timeout"
  shows "fst (wait_for_scan cli i st timeout) = Inr () \<and>
         polls (snd (wait_for_scan cli i st timeout)) = n \<and>
         sleeps (snd (wait_for_scan cli i st timeout)) = n - 1"
proof -
  from wait have w: "\<forall>k<n - 1. wfs_checks cli i st (f (polls [] + k)) = Inr False"
    by (auto intro: wfs_checks_wait)
  from n budget have b: "5 * int (n - 1) < timeout + 5" by (simp add: of_nat_diff)
  from wfs_loop_skip[OF src w b, of None] obtain t' res'
    where skip: "wait_for_scan_loop cli i st timeout None [] =
           wait_for_scan_loop cli i st (timeout - 5 * int (n - 1)) res' t'"
      and p: "polls t' = n - 1" "sleeps t' = n - 1" by auto
  from n budget have pos: "0 < timeout - 5 * int (n - 1)" by (simp add: of_nat_diff)
  from src p have s: "scan_job cli i t' = Inr (f (n - 1))" by simp
  from reached have c: "wfs_checks cli i st (f (n - 1)) = Inr True" by (rule wfs_checks_reached)
  from pos s c have "wait_for_scan_loop cli i st (timeout - 5 * int (n - 1)) res' t' =
      (Inr (), t' @ [ScanJob (Inr (f (n - 1)))])"
    by (subst wait_for_scan_loop.simps) simp
  with skip have "wait_for_scan cli i st timeout = (Inr (), t' @ [ScanJob (Inr (f (n - 1)))])"
    by (simp add: wait_for_scan_def)
  with p n show ?thesis by (simp add: polls_append sleeps_append)
qed

lemma wus_loop_reaches:
  assumes src: "\<forall>h. status scan h = Inr (g (sleeps h))"
    and st: "state \<noteq> []"
    and wait: "\<forall>k<m. g (sleeps t + k) \<noteq> PyStr state \<and> g (sleeps t + k) \<noteq> PyStr ''failed''"
    and reached: "g (sleeps t + m) = PyStr state"
    and budget: "m = 0 \<or> 5 * int m < timeout"
  shows "fst (wait_until_state_loop scan timeout state t) = Inr () \<and>
         sleeps (snd (wait_until_state_loop scan timeout state t)) = sleeps t + m \<and>
         polls t + m + 2 \<le> polls (snd (wait_until_state_loop scan timeout state t)) \<and>
         polls (snd (wait_until_state_loop scan timeout state t)) \<le> polls t + 3 * m + 2"
  using wait reached budget
proof (induction m arbitrary: t timeout)
  case 0
  from "0.prems"(2) src st have "wus_cond scan state timeout t =
      (Inr False, t @ [Status (Inr (PyStr state)), Status (Inr (PyStr state))])"
    by (simp add: wus_cond_def sleeps_append)
  then have "wait_until_state_loop scan timeout state t =
      (Inr (), t @ [Status (Inr (PyStr state)), Status (Inr (PyStr state))])"
    by (simp add: wait_until_state_loop.simps[of scan timeout state t])
  then show ?case by (simp add: sleeps_append polls_append)
next
  case (Suc m)
  let ?v = "g (sleeps t)"
  from Suc.prems(1) have v: "?v \<noteq> PyStr state" "?v \<noteq> PyStr ''failed''" by force+
  from Suc.prems(3) have big: "5 < timeout" by auto
  have "\<exists>t1. wus_cond scan state timeout t = (Inr True, t1) \<and> sleeps t1 = sleeps t \<and>
          polls t + 1 \<le> polls t1 \<and> polls t1 \<le> polls t + 2"
  proof (cases "truthy ?v")
    case True
    with src v big have "wus_cond scan state timeout t =
        (Inr True, t @ [Status (Inr ?v), Status (Inr ?v)])"
      by (simp add: wus_cond_def sleeps_append)
    then show ?thesis by (simp add: sleeps_append polls_append)
  next
    case False
    with src big have "wus_cond scan state timeout t = (Inr True, t @ [Status (Inr ?v)])"
      by (simp add: wus_cond_def)
    then show ?thesis by (simp add: sleeps_append polls_append)
  qed
  then obtain t1 where c: "wus_cond scan state timeout t = (Inr True, t1)"
    and t1: "sleeps t1 = sleeps t" "polls t + 1 \<le> polls t1" "polls t1 \<le> polls t + 2" by blast
  have nf: "state \<noteq> ''failed'' \<Longrightarrow> g (Suc (sleeps t)) \<noteq> PyStr ''failed''"
  proof (cases m)
    case 0
    with Suc.prems(2) show "state \<noteq> ''failed'' \<Longrightarrow> g (Suc (sleeps t)) \<noteq> PyStr ''failed''" by simp
  next
    case (Suc m')
    with Suc.prems(1) have "g (sleeps t + 1) \<noteq> PyStr ''failed''" by force
    then show "g (Suc (sleeps t)) \<noteq> PyStr ''failed''" by simp
  qed
  have "\<exists>t2. wus_failed_check scan state (t1 @ [Sleep 5]) = (Inr (), t2) \<and>
          sleeps t2 = Suc (sleeps t) \<and> polls t1 \<le> polls t2 \<and> polls t2 \<le> polls t1 + 1"
  proof (cases "state = ''failed''")
    case True
    then have "wus_failed_check scan state (t1 @ [Sleep 5]) = (Inr (), t1 @ [Sleep 5])"
      by (simp add: wus_failed_check_def)
    then show ?thesis by (simp add: sleeps_append polls_append t1)
  next
    case False
    with nf src t1 have "wus_failed_check scan state (t1 @ [Sleep 5]) =
        (Inr (), t1 @ [Sleep 5, Status (Inr (g (Suc (sleeps t))))])"
      by (simp add: wus_failed_check_def sleeps_append)
    then show ?thesis by (simp add: sleeps_append polls_append t1)
  qed
  then obtain t2 where f: "wus_failed_check scan state (t1 @ [Sleep 5]) = (Inr (), t2)"
    and t2: "sleeps t2 = Suc (sleeps t)" "polls t1 \<le> polls t2" "polls t2 \<le> polls t1 + 1" by blast
  from c big f have turn: "wait_until_state_loop scan timeout state t =
      wait_until_state_loop scan (timeout - 5) state t2"
    by (simp add: wait_until_state_loop.simps[of scan timeout state t])
  have w: "\<forall>k<m. g (sleeps t2 + k) \<noteq> PyStr state \<and> g (sleeps t2 + k) \<noteq> PyStr ''failed''"
  proof (intro allI impI)
    fix k assume "k < m"
    then have "Suc k < Suc m" by simp
    with Suc.prems(1) have "g (sleeps t + Suc k) \<noteq> PyStr state \<and>
        g (sleeps t + Suc k) \<noteq> PyStr ''failed''" by blast
    then show "g (sleeps t2 + k) \<noteq> PyStr state \<and> g (sleeps t2 + k) \<noteq> PyStr ''failed''"
      by (simp add: t2)
  qed
  from Suc.prems(2) have r: "g (sleeps t2 + m) = PyStr state" by (simp add: t2)
  from Suc.prems(3) have b: "m = 0 \<or> 5 * int m < timeout - 5" by auto
  from Suc.IH[OF w r b] turn t1 t2 show ?case by simp
qed

text \<open>
  On a job that fails while another status is awaited, \<open>wait_for_scan\<close> raises
  \<open>FailedScanException\<close> at the poll that sees \<open>failed\<close>, whatever budget is left.
\<close>

lemma wfs_failed_scan:
  assumes n: "1 \<le> n"
    and src: "\<forall>h. scan_job cli i h = Inr (f (polls h))"
    and wait: "\<forall>k<n - 1. \<exists>v. map_of (f k) ''status'' = Some v \<and> v \<noteq> PyStr st \<and> v \<noteq> PyStr ''failed''"
    and failed: "map_of (f (n - 1)) ''status'' = Some (PyStr ''failed'')" "st \<noteq> ''failed''"
    and budget: "5 * (int n - 1) < timeout"
  shows "(\<exists>m. fst (wait_for_scan cli i st timeout) = Inl (FailedScanException m)) \<and>
         polls (snd (wait_for_scan cli i st timeout)) = n \<and>
         sleeps (snd (wait_for_scan cli i st timeout)) = n - 1"
proof -
  from wait have w: "\<forall>k<n - 1. wfs_checks cli i st (f (polls [] + k)) = Inr False"
    by (auto intro: wfs_checks_wait)
  from n budget have b: "5 * int (n - 1) < timeout + 5" by (simp add: of_nat_diff)
  from wfs_loop_skip[OF src w b, of None] obtain t' res'
    where skip: "wait_for_scan_loop cli i st timeout None [] =
           wait_for_scan_loop cli i st (timeout - 5 * int (n - 1)) res' t'"
      and p: "polls t' = n - 1" "sleeps t' = n - 1" by auto
  from n budget have pos: "0 < timeout - 5 * int (n - 1)" by (simp add: of_nat_diff)
  from src p have s: "scan_job cli i t' = Inr (f (n - 1))" by simp
  from failed obtain m where c: "wfs_checks cli i st (f (n - 1)) = Inl (FailedScanException m)"
    by (simp add: wfs_checks_eq raise_formatted_def wfs_failed_format)
  from pos s c have "wait_for_scan_loop cli i st (timeout - 5 * int (n - 1)) res' t' =
      (Inl (FailedScanException m), t' @ [ScanJob (Inr (f (n - 1)))])"
    by (subst wait_for_scan_loop.simps) simp
  with skip have "wait_for_scan cli i st timeout =
      (Inl (FailedScanException m), t' @ [ScanJob (Inr (f (n - 1)))])"
    by (simp add: wait_for_scan_def)
  with p n show ?thesis by (simp add: polls_append sleeps_append)
qed

text \<open>
  Claim C3, as stated: when the n-th polled value is the target, the waiter returns
  after exactly n invocations of the status source and exactly n sleeps. It fails
  at \<open>n = 1\<close>, on a job that is already \<open>completed\<close>: \<open>wait_for_scan\<close> returns after
  one poll and no sleep, \<open>wait_until_state\<close> after two fetches and no sleep.
\<close>

theorem reached_at_nth_poll_counterexample:
  "fst (wait_for_scan (cli_by_call (seq [] (Inr (job ''completed'') :: string + result)))
          ''7'' ''completed'' 900) = Inr () \<and>
   polls (snd (wait_for_scan (cli_by_call (seq [] (Inr (job ''completed'') :: string + result)))
          ''7'' ''completed'' 900)) = 1 \<and>
   sleeps (snd (wait_for_scan (cli_by_call (seq [] (Inr (job ''completed'') :: string + result)))
          ''7'' ''completed'' 900)) = 0 \<and>
   fst (wait_until_state (scan_by_call (seq [] (Inr (PyStr ''completed'') :: string + pyval)))
          120 ''completed'') = Inr () \<and>
   polls (snd (wait_until_state (scan_by_call (seq [] (Inr (PyStr ''completed'') :: string + pyval)))
          120 ''completed'')) = 2 \<and>
   sleeps (snd (wait_until_state (scan_by_call (seq [] (Inr (PyStr ''completed'') :: string + pyval)))
          120 ''completed'')) = 0"
  by (simp add: wfs_defs wus_defs seq_def scan_by_call_def cli_by_call_def job_def)

text \<open>
  Claim C3, amended. For every \<open>n >= 1\<close> and every status sequence whose n-th value
  is the target, with no earlier value equal to the target or to \<open>'failed'\<close>, and
  \<open>timeout > 5 * (n - 1)\<close>: \<open>wait_for_scan\<close> returns after exactly n invocations of
  the status source and exactly \<open>n - 1\<close> sleeps; \<open>wait_until_state\<close>, for a non-empty
  target and a status that changes only while the waiter sleeps, returns after
  exactly \<open>n - 1\<close> sleeps and between \<open>n + 1\<close> and \<open>3 * n - 1\<close> invocations of the
  status source.
\<close>

theorem reached_at_nth_poll:
  "(1 \<le> n \<longrightarrow> (\<forall>h. scan_job cli i h = Inr (f (polls h))) \<longrightarrow>
      (\<forall>k<n - 1. \<exists>v. map_of (f k) ''status'' = Some v \<and> v \<noteq> PyStr st \<and> v \<noteq> PyStr ''failed'') \<longrightarrow>
      map_of (f (n - 1)) ''status'' = Some (PyStr st) \<longrightarrow>
      5 * (int n - 1) < timeout \<longrightarrow>
      fst (wait_for_scan cli i st timeout) = Inr () \<and>
      polls (snd (wait_for_scan cli i st timeout)) = n \<and>
      sleeps (snd (wait_for_scan cli i st timeout)) = n - 1) \<and>
   (1 \<le> n \<longrightarrow> (\<forall>h. status scan h = Inr (g (sleeps h))) \<longrightarrow>
      (\<forall>k<n - 1. g k \<noteq> PyStr state \<and> g k \<noteq> PyStr ''failed'') \<longrightarrow>
      g (n - 1) = PyStr state \<longrightarrow> state \<noteq> [] \<longrightarrow>
      5 * (int n - 1) < timeout \<longrightarrow>
      fst (wait_until_state scan timeout state) = Inr () \<and>
      sleeps (snd (wait_until_state scan timeout state)) = n - 1 \<and>
      n + 1 \<le> polls (snd (wait_until_state scan timeout state)) \<and>
      polls (snd (wait_until_state scan timeout state)) \<le> 3 * n - 1)"
proof -
  have a: "1 \<le> n \<longrightarrow> (\<forall>h. scan_job cli i h = Inr (f (polls h))) \<longrightarrow>
      (\<forall>k<n - 1. \<exists>v. map_of (f k) ''status'' = Some v \<and> v \<noteq> PyStr st \<and> v \<noteq> PyStr ''failed'') \<longrightarrow>
      map_of (f (n - 1)) ''status'' = Some (PyStr st) \<longrightarrow>
      5 * (int n - 1) < timeout \<longrightarrow>
      fst (wait_for_scan cli i st timeout) = Inr () \<and>
      polls (snd (wait_for_scan cli i st timeout)) = n \<and>
      sleeps (snd (wait_for_scan cli i st timeout)) = n - 1"
    using wfs_reaches[of n cli i f st timeout] by blast
  have b: "fst (wait_until_state scan timeout state) = Inr () \<and>
      sleeps (snd (wait_until_state scan timeout state)) = n - 1 \<and>
      n + 1 \<le> polls (snd (wait_until_state scan timeout state)) \<and>
      polls (snd (wait_until_state scan timeout state)) \<le> 3 * n - 1"
    if n: "1 \<le> n" and src: "\<forall>h. status scan h = Inr (g (sleeps h))"
      and wait: "\<forall>k<n - 1. g k \<noteq> PyStr state \<and> g k \<noteq> PyStr ''failed''"
      and reached: "g (n - 1) = PyStr state" and st: "state \<noteq> []"
      and budget: "5 * (int n - 1) < timeout"
  proof -
    from wait have w: "\<forall>k<n - 1. g (sleeps [] + k) \<noteq> PyStr state \<and>
        g (sleeps [] + k) \<noteq> PyStr ''failed''" by simp
    from reached have r: "g (sleeps [] + (n - 1)) = PyStr state" by simp
    from n budget have bu: "n - 1 = 0 \<or> 5 * int (n - 1) < timeout" by (simp add: of_nat_diff)
    from wus_loop_reaches[OF src st w r bu] n show ?thesis
      by (simp add: wait_until_state_def) linarith
  qed
  from a b show ?thesis by blast
qed

theorem reached_at_nth_poll_witness:
  "fst (wait_for_scan
          (cli_by_call (Inr \<circ> seq [job ''pending'', job ''pending'', job ''running'']
             (job ''completed'') :: nat \<Rightarrow> string + result))
          ''7'' ''completed'' 120) = Inr () \<and>
   polls (snd (wait_for_scan
          (cli_by_call (Inr \<circ> seq [job ''pending'', job ''pending'', job ''running'']
             (job ''completed'') :: nat \<Rightarrow> string + result))
          ''7'' ''completed'' 120)) = 4 \<and>
   sleeps (snd (wait_for_scan
          (cli_by_call (Inr \<circ> seq [job ''pending'', job ''pending'', job ''running'']
             (job ''completed'') :: nat \<Rightarrow> string + result))
          ''7'' ''completed'' 120)) = 4 - 1 \<and>
   fst (wait_until_state
          (scan_by_time (Inr \<circ> seq [PyStr ''pending'', PyStr ''pending'', PyStr ''running'']
             (PyStr ''completed'') :: nat \<Rightarrow> string + pyval))
          120 ''completed'') = Inr () \<and>
   sleeps (snd (wait_until_state
          (scan_by_time (Inr \<circ> seq [PyStr ''pending'', PyStr ''pending'', PyStr ''running'']
             (PyStr ''completed'') :: nat \<Rightarrow> string + pyval))
          120 ''completed'')) = 4 - 1 \<and>
   polls (snd (wait_until_state
          (scan_by_time (Inr \<circ> seq [PyStr ''pending'', PyStr ''pending'', PyStr ''running'']
             (PyStr ''completed'') :: nat \<Rightarrow> string + pyval))
          120 ''completed'')) \<le> 3 * 4 - 1"
proof -
  let ?f = "seq [job ''pending'', job ''pending'', job ''running''] (job ''completed'')"
  let ?g = "seq [PyStr ''pending'', PyStr ''pending'', PyStr ''running''] (PyStr ''completed'')"
  let ?C = "cli_by_call (Inr \<circ> ?f :: nat \<Rightarrow> string + result)"
  let ?S = "scan_by_time (Inr \<circ> ?g :: nat \<Rightarrow> string + pyval)"
  have n: "(1::nat) \<le> 4" "5 * (int 4 - 1) < 120" "''completed'' \<noteq> []" by simp_all
  have h1: "\<forall>h. scan_job ?C ''7'' h = Inr (?f (polls h))"
    by (simp add: cli_by_call_def)
  have h2: "\<forall>k<4 - 1. \<exists>v. map_of (?f k) ''status'' = Some v \<and> v \<noteq> PyStr ''completed'' \<and>
      v \<noteq> PyStr ''failed''"
    by (simp add: eval_nat_numeral All_less_Suc seq_def job_def)
  have h3: "map_of (?f (4 - 1)) ''status'' = Some (PyStr ''completed'')"
    by (simp add: seq_def job_def)
  have h4: "\<forall>h. status ?S h = Inr (?g (sleeps h))"
    by (simp add: scan_by_time_def)
  have h5: "\<forall>k<4 - 1. ?g k \<noteq> PyStr ''completed'' \<and> ?g k \<noteq> PyStr ''failed''"
    by (simp add: eval_nat_numeral All_less_Suc seq_def)
  have h6: "?g (4 - 1) = PyStr ''completed''"
    by (simp add: seq_def)
  from reached_at_nth_poll
    [where n = 4 and cli = ?C and i = "''7''" and f = ?f and st = "''completed''"
       and timeout = 120 and scan = ?S and g = ?g and state = "''completed''"]
    n h1 h2 h3 h4 h5 h6
  show ?thesis by blast
qed

end
